theory Spec2Isabelle
  imports Complex_Main
begin

section \<open>Numbers and randomness\<close>

text \<open>
  The program is \<^verbatim>\<open>script.js\<close>, an ambient-sound mixer on the Web Audio API.
  JavaScript numbers are modelled as exact rationals: the constants of the program are
  decimal literals, and the arithmetic of IEEE doubles is taken without its rounding. The
  white and the pink noise are described over these exact samples. For the impulse train
  the 32-bit storage of a \<^verbatim>\<open>Float32Array\<close> is modelled as well (\<open>fround\<close> below),
  because the size of its samples depends on it.

  \<^verbatim>\<open>Math.random()\<close> is modelled by the stream of its future results: \<open>rnd k\<close> is the
  value of the \<open>k\<close>-th call from now. JavaScript guarantees \<open>0 \<le> rnd k < 1\<close>; theorems
  that need it say so.
\<close>

type_synonym random = "nat \<Rightarrow> rat"


text \<open>
  Writing \<^verbatim>\<open>data[idx] = v\<close> on a typed array: an index outside the array is ignored
  (a typed array never grows).
\<close>

definition store :: "rat list \<Rightarrow> int \<Rightarrow> rat \<Rightarrow> rat list" where
  "store data idx v = (if 0 \<le> idx \<and> nat idx < length data then data[nat idx := v] else data)"

text \<open>\<^verbatim>\<open>audioCtx.createBuffer(1, bufferSize, sampleRate).getChannelData(0)\<close>: silence.\<close>

definition createBuffer :: "nat \<Rightarrow> rat list" where
  "createBuffer bufferSize = replicate bufferSize 0"

section \<open>Signal generators\<close>

subsection \<open>White noise: \<^verbatim>\<open>createNoiseBuffer\<close>\<close>

text \<open>
  \<^verbatim>\<open>for (let i = 0; i < bufferSize; i++) data[i] = Math.random() * 2 - 1;\<close>
  Iteration \<open>i\<close> makes the \<open>i\<close>-th call of \<^verbatim>\<open>Math.random\<close>.
\<close>

function noise_loop :: "nat \<Rightarrow> nat \<Rightarrow> random \<Rightarrow> rat list \<Rightarrow> rat list" where
  "noise_loop bufferSize i rnd data =
     (if i < bufferSize
      then noise_loop bufferSize (i + 1) rnd (store data (int i) (rnd i * 2 - 1))
      else data)"
  by pat_completeness auto
termination
  by (relation "measure (\<lambda>(bufferSize, i, rnd, data). bufferSize - i)") auto

definition createNoiseBuffer :: "nat \<Rightarrow> random \<Rightarrow> rat list" where
  "createNoiseBuffer sampleRate rnd =
     (let bufferSize = sampleRate * 2 in noise_loop bufferSize 0 rnd (createBuffer bufferSize))"

subsection \<open>Pink noise: \<^verbatim>\<open>createPinkNoiseBuffer\<close>\<close>

text \<open>The seven variables \<^verbatim>\<open>b0 .. b6\<close> of the generator.\<close>

record pink_regs =
  b0 :: rat
  b1 :: rat
  b2 :: rat
  b3 :: rat
  b4 :: rat
  b5 :: rat
  b6 :: rat

definition pink_zero :: pink_regs where
  "pink_zero = \<lparr>b0 = 0, b1 = 0, b2 = 0, b3 = 0, b4 = 0, b5 = 0, b6 = 0\<rparr>"

text \<open>
  One pass through the loop body, in the order of the source: the six recursive updates,
  the sample (which reads the old \<^verbatim>\<open>b6\<close>), its scaling by 0.11, then the new
  \<^verbatim>\<open>b6\<close>.
\<close>

definition pink_body :: "pink_regs \<Rightarrow> rat \<Rightarrow> rat \<times> pink_regs" where
  "pink_body r white =
     (let n0 = 0.99886 * b0 r + white * 0.0555179;
          n1 = 0.99332 * b1 r + white * 0.0750759;
          n2 = 0.96900 * b2 r + white * 0.1538520;
          n3 = 0.86650 * b3 r + white * 0.3104856;
          n4 = 0.55000 * b4 r + white * 0.5329522;
          n5 = - 0.7616 * b5 r - white * 0.0168981;
          sample = n0 + n1 + n2 + n3 + n4 + n5 + b6 r + white * 0.5362;
          sample = sample * 0.11;
          n6 = white * 0.115926
      in (sample, \<lparr>b0 = n0, b1 = n1, b2 = n2, b3 = n3, b4 = n4, b5 = n5, b6 = n6\<rparr>))"

function pink_loop :: "nat \<Rightarrow> nat \<Rightarrow> random \<Rightarrow> pink_regs \<Rightarrow> rat list \<Rightarrow> rat list" where
  "pink_loop bufferSize i rnd r data =
     (if i < bufferSize
      then (let white = rnd i * 2 - 1;
                (sample, r') = pink_body r white
            in pink_loop bufferSize (i + 1) rnd r' (store data (int i) sample))
      else data)"
  by pat_completeness auto
termination
  by (relation "measure (\<lambda>(bufferSize, i, rnd, r, data). bufferSize - i)") auto

definition createPinkNoiseBuffer :: "nat \<Rightarrow> random \<Rightarrow> rat list" where
  "createPinkNoiseBuffer sampleRate rnd =
     (let bufferSize = sampleRate * 2
      in pink_loop bufferSize 0 rnd pink_zero (createBuffer bufferSize))"

text \<open>
  For stating results: the white-noise input of step \<open>i\<close>, and the registers after \<open>n\<close>
  passes of the loop body from the all-zero start.
\<close>

definition white_at :: "random \<Rightarrow> nat \<Rightarrow> rat" where
  "white_at rnd i = rnd i * 2 - 1"

primrec pink_regs_after :: "random \<Rightarrow> nat \<Rightarrow> pink_regs" where
  "pink_regs_after rnd 0 = pink_zero"
| "pink_regs_after rnd (Suc n) = snd (pink_body (pink_regs_after rnd n) (white_at rnd n))"

text \<open>
  The output formula as the specification words it: the six recursive states and the
  direct term, scaled by 0.11, and nothing else.
\<close>

definition spec_pink_sample :: "random \<Rightarrow> nat \<Rightarrow> rat" where
  "spec_pink_sample rnd i =
     (let r = pink_regs_after rnd (Suc i)
      in (b0 r + b1 r + b2 r + b3 r + b4 r + b5 r + 0.5362 * white_at rnd i) * 0.11)"

subsection \<open>Samples as a \<^verbatim>\<open>Float32Array\<close> holds them\<close>

text \<open>
  A \<^verbatim>\<open>Float32Array\<close> keeps the 32-bit float nearest to the number written to it, a tie
  going to the float with the even mantissa (as \<^verbatim>\<open>Math.fround\<close> does). The floats of
  magnitude from \<open>2 ^ k\<close> up to \<open>2 ^ (k + 1)\<close> are the multiples of \<open>2 ^ (k - 23)\<close>, for
  \<open>k\<close> from \<open>-126\<close> to \<open>127\<close>; below \<open>2 ^ (-126)\<close> they are the multiples of
  \<open>2 ^ (-149)\<close>. \<open>ulp_search\<close> finds that spacing by going up the binades from the
  lowest: \<open>lo\<close> is the lower end of the binade at hand and \<open>u\<close> its spacing. A number
  that rounds to \<open>2 ^ 128\<close> or beyond, which the array keeps as \<^verbatim>\<open>Infinity\<close>, is
  rounded here on the spacing of the top binade; the impulse train writes no number of
  magnitude above 0.8.
\<close>

definition round_even :: "rat \<Rightarrow> int" where
  "round_even q =
     (let f = \<lfloor>q\<rfloor>;
          r = q - of_int f
      in if r < 1 / 2 then f else if 1 / 2 < r then f + 1 else if even f then f else f + 1)"

fun ulp_search :: "nat \<Rightarrow> rat \<Rightarrow> rat \<Rightarrow> rat \<Rightarrow> rat" where
  "ulp_search 0 lo u a = u"
| "ulp_search (Suc n) lo u a = (if a < 2 * lo then u else ulp_search n (2 * lo) (2 * u) a)"

definition f32_ulp :: "rat \<Rightarrow> rat" where
  "f32_ulp a = ulp_search 253 (1 / 2 ^ 126) (1 / 2 ^ 149) a"

definition fround :: "rat \<Rightarrow> rat" where
  "fround x =
     (let a = \<bar>x\<bar>;
          u = f32_ulp a;
          y = of_int (round_even (a / u)) * u
      in if x < 0 then - y else y)"

subsection \<open>Impulse train: \<^verbatim>\<open>createImpulseBuffer\<close>\<close>

text \<open>
  \<^verbatim>\<open>for (let i = 0; i < totalPops; i++) { idx = Math.floor(Math.random() * bufferSize);
  data[idx] = (Math.random() * 2 - 1) * 0.8; }\<close>
  Iteration \<open>i\<close> makes calls \<open>2 i\<close> (the position) and \<open>2 i + 1\<close> (the amplitude) of
  \<^verbatim>\<open>Math.random\<close>. The rate is a JavaScript number, so the bound of the loop is a
  rational. \<open>data\<close> is a \<^verbatim>\<open>Float32Array\<close>: \<open>pop_amplitude\<close> is the sample of pass
  \<open>i\<close> as the array keeps it, the 32-bit float nearest to the number computed.
\<close>

definition pop_index :: "nat \<Rightarrow> random \<Rightarrow> nat \<Rightarrow> int" where
  "pop_index bufferSize rnd i = \<lfloor>rnd (2 * i) * of_nat bufferSize\<rfloor>"

definition pop_amplitude :: "random \<Rightarrow> nat \<Rightarrow> rat" where
  "pop_amplitude rnd i = fround ((rnd (2 * i + 1) * 2 - 1) * 0.8)"

function impulse_loop :: "rat \<Rightarrow> nat \<Rightarrow> nat \<Rightarrow> random \<Rightarrow> rat list \<Rightarrow> rat list" where
  "impulse_loop totalPops bufferSize i rnd data =
     (if of_nat i < totalPops
      then impulse_loop totalPops bufferSize (i + 1) rnd
             (store data (pop_index bufferSize rnd i) (pop_amplitude rnd i))
      else data)"
  by pat_completeness auto
termination
proof (relation "measure (\<lambda>(totalPops, bufferSize, i, rnd, data). nat \<lceil>totalPops\<rceil> - i)")
  show "wf (measure (\<lambda>(totalPops, bufferSize, i, rnd, data). nat \<lceil>totalPops\<rceil> - i))"
    by simp
next
  fix totalPops :: rat and bufferSize i :: nat and rnd :: random and data :: "rat list"
  assume "of_nat i < totalPops"
  then have "int i < \<lceil>totalPops\<rceil>"
    by (simp add: less_ceiling_iff)
  then show "((totalPops, bufferSize, i + 1, rnd,
               store data (pop_index bufferSize rnd i) (pop_amplitude rnd i)),
              (totalPops, bufferSize, i, rnd, data))
             \<in> measure (\<lambda>(totalPops, bufferSize, i, rnd, data). nat \<lceil>totalPops\<rceil> - i)"
    by simp
qed

definition createImpulseBuffer :: "nat \<Rightarrow> rat \<Rightarrow> random \<Rightarrow> rat list" where
  "createImpulseBuffer sampleRate rate rnd =
     (let bufferSize = sampleRate * 4;
          totalPops = rate * 4
      in impulse_loop totalPops bufferSize 0 rnd (createBuffer bufferSize))"

text \<open>How many calls of \<^verbatim>\<open>Math.random\<close> each generator makes.\<close>

definition noise_draws :: "nat \<Rightarrow> nat" where
  "noise_draws sampleRate = sampleRate * 2"

text \<open>
  How many times the loop of \<^verbatim>\<open>createImpulseBuffer\<close> runs: \<open>i\<close> counts up from 0 while
  \<open>i < rate * 4\<close>.
\<close>

definition total_pops :: "rat \<Rightarrow> nat" where
  "total_pops rate = nat \<lceil>rate * 4\<rceil>"

definition impulse_draws :: "rat \<Rightarrow> nat" where
  "impulse_draws rate = 2 * total_pops rate"


text \<open>A concrete stream of draws: the listed values, then zeros.\<close>

definition stream_of :: "rat list \<Rightarrow> random" where
  "stream_of xs k = (if k < length xs then xs ! k else 0)"



text \<open>The stream after \<open>n\<close> calls of \<^verbatim>\<open>Math.random\<close>.\<close>

definition after_draws :: "nat \<Rightarrow> random \<Rightarrow> random" where
  "after_draws n rnd = (\<lambda>k. rnd (k + n))"

section \<open>The audio engine\<close>

text \<open>
  The Web Audio objects the program creates, as a store of nodes addressed by the order
  of their creation, and the connections between them. Only the attributes the program
  reads or writes are kept. A connection leads from a node to the input of a node or to
  one of its parameters (\<^verbatim>\<open>lfo.connect(amGain.gain)\<close>).
\<close>

datatype node_kind =
  DestinationNode | AnalyserNode | GainNode | AudioBufferSourceNode | OscillatorNode
  | BiquadFilterNode

datatype param = GainParam | FrequencyParam

datatype target = Input nat | Param nat param

datatype error = TypeError | InvalidStateError

datatype outcome = Returned | Threw error

datatype ctx_state = Suspended | Running

record audio_node =
  kind :: node_kind
  node_type :: string
  frequency_value :: rat
  gain_value :: rat
  Q_value :: rat
  buffer :: "rat list option"
  loop :: bool
  started :: bool
  stopped :: bool
  gain_target :: "(rat \<times> rat \<times> rat) option"
  fftSize :: nat

text \<open>A node as its constructor leaves it (the defaults of the Web Audio API).\<close>

definition default_node :: "node_kind \<Rightarrow> audio_node" where
  "default_node k =
     \<lparr>kind = k,
      node_type = (if k = OscillatorNode then ''sine''
                   else if k = BiquadFilterNode then ''lowpass'' else []),
      frequency_value = (if k = OscillatorNode then 440
                         else if k = BiquadFilterNode then 350 else 0),
      gain_value = (if k = GainNode then 1 else 0),
      Q_value = (if k = BiquadFilterNode then 1 else 0),
      buffer = None, loop = False, started = False, stopped = False,
      gain_target = None,
      fftSize = (if k = AnalyserNode then 2048 else 0)\<rparr>"

text \<open>
  The globals \<^verbatim>\<open>audioCtx\<close> and \<^verbatim>\<open>analyser\<close>, which \<^verbatim>\<open>initAudio\<close> assigns
  together, with the nodes made from the context, and the future of \<^verbatim>\<open>Math.random\<close>.
  \<^verbatim>\<open>audioCtx.resume()\<close> returns a promise and leaves \<^verbatim>\<open>audioCtx.state\<close> as it is;
  \<open>resume_pending\<close> holds while such a call has not been settled.
\<close>

record engine =
  sampleRate :: nat
  currentTime :: rat
  state :: ctx_state
  resume_pending :: bool
  next_id :: nat
  nodes :: "nat \<Rightarrow> audio_node"
  conns :: "(nat \<times> target) list"
  destination :: nat
  analyser :: nat
  rand :: random

definition create_node :: "node_kind \<Rightarrow> engine \<Rightarrow> nat \<times> engine" where
  "create_node k e =
     (next_id e, e\<lparr>nodes := (nodes e)(next_id e := default_node k), next_id := next_id e + 1\<rparr>)"

definition update_node :: "nat \<Rightarrow> (audio_node \<Rightarrow> audio_node) \<Rightarrow> engine \<Rightarrow> engine" where
  "update_node n f e = e\<lparr>nodes := (nodes e)(n := f (nodes e n))\<rparr>"

text \<open>\<^verbatim>\<open>a.connect(t)\<close>: connecting twice makes one connection.\<close>

definition connect :: "nat \<Rightarrow> target \<Rightarrow> engine \<Rightarrow> engine" where
  "connect a t e = (if (a, t) \<in> set (conns e) then e else e\<lparr>conns := conns e @ [(a, t)]\<rparr>)"

text \<open>\<^verbatim>\<open>a.disconnect()\<close>: every outgoing connection of \<open>a\<close> is removed.\<close>

definition disconnect :: "nat \<Rightarrow> engine \<Rightarrow> engine" where
  "disconnect a e = e\<lparr>conns := filter (\<lambda>c. fst c \<noteq> a) (conns e)\<rparr>"

text \<open>
  \<^verbatim>\<open>start()\<close> and \<^verbatim>\<open>stop()\<close> of a source or oscillator: a second \<^verbatim>\<open>start()\<close>
  and a \<^verbatim>\<open>stop()\<close> before \<^verbatim>\<open>start()\<close> throw \<^verbatim>\<open>InvalidStateError\<close>.
\<close>

definition start_node :: "nat \<Rightarrow> engine \<Rightarrow> outcome \<times> engine" where
  "start_node n e =
     (if started (nodes e n) then (Threw InvalidStateError, e)
      else (Returned, update_node n (\<lambda>x. x\<lparr>started := True\<rparr>) e))"

definition stop_node :: "nat \<Rightarrow> engine \<Rightarrow> outcome \<times> engine" where
  "stop_node n e =
     (if \<not> started (nodes e n) then (Threw InvalidStateError, e)
      else (Returned, update_node n (\<lambda>x. x\<lparr>stopped := True\<rparr>) e))"

text \<open>\<^verbatim>\<open>node.gain.setTargetAtTime(target, startTime, timeConstant)\<close>: the request is recorded.\<close>

definition setTargetAtTime :: "nat \<Rightarrow> rat \<Rightarrow> rat \<Rightarrow> rat \<Rightarrow> engine \<Rightarrow> engine" where
  "setTargetAtTime n target startTime timeConstant e =
     update_node n (\<lambda>x. x\<lparr>gain_target := Some (target, startTime, timeConstant)\<rparr>) e"

text \<open>
  Assigning \<^verbatim>\<open>osc.type\<close>: one of the four wave names is stored, \<^verbatim>\<open>'custom'\<close> throws
  \<^verbatim>\<open>InvalidStateError\<close>, any other string is ignored.
\<close>

definition set_oscillator_type :: "nat \<Rightarrow> string \<Rightarrow> engine \<Rightarrow> outcome \<times> engine" where
  "set_oscillator_type n t e =
     (if t \<in> set [''sine'', ''square'', ''sawtooth'', ''triangle'']
      then (Returned, update_node n (\<lambda>x. x\<lparr>node_type := t\<rparr>) e)
      else if t = ''custom'' then (Threw InvalidStateError, e)
      else (Returned, e))"

section \<open>Sound definitions\<close>

text \<open>
  An entry of the table \<^verbatim>\<open>sounds\<close>. The display fields \<^verbatim>\<open>name\<close> and \<^verbatim>\<open>icon\<close> are
  left out. A field the entry does not have is \<open>None\<close>.
\<close>

record config =
  id_c :: string
  type_c :: string
  filter_c :: "string option"
  modulation :: "string option"
  freq :: "rat option"
  wave :: "string option"
  rate :: "rat option"
  baseFreq :: "rat option"

definition plain :: "string \<Rightarrow> string \<Rightarrow> config" where
  "plain i t = \<lparr>id_c = i, type_c = t, filter_c = None, modulation = None, freq = None,
                wave = None, rate = None, baseFreq = None\<rparr>"

definition sounds :: "config list" where
  "sounds =
     [(plain ''rain'' ''noise'')\<lparr>filter_c := Some ''lowpass''\<rparr>,
      (plain ''ocean'' ''pink-noise'')\<lparr>filter_c := Some ''lowpass'', modulation := Some ''ocean''\<rparr>,
      (plain ''wind'' ''pink-noise'')\<lparr>filter_c := Some ''bandpass''\<rparr>,
      (plain ''crickets'' ''oscillator'')\<lparr>freq := Some 4000, modulation := Some ''pulse''\<rparr>,
      (plain ''drone'' ''oscillator'')\<lparr>freq := Some 50, wave := Some ''sawtooth''\<rparr>,
      (plain ''coffee'' ''noise'')\<lparr>filter_c := Some ''highpass''\<rparr>,
      (plain ''vinyl'' ''impulse'')\<lparr>rate := Some 15\<rparr>,
      (plain ''fire'' ''noise'')\<lparr>filter_c := Some ''lowpass'', modulation := Some ''flicker''\<rparr>,
      (plain ''chime'' ''periodic'')\<lparr>baseFreq := Some 440\<rparr>,
      (plain ''train'' ''pink-noise'')\<lparr>filter_c := Some ''lowpass'', modulation := Some ''rhythm''\<rparr>]"

text \<open>JavaScript truthiness and \<^verbatim>\<open>x || d\<close> for an optional string and an optional number.\<close>

definition truthy :: "string option \<Rightarrow> bool" where
  "truthy x = (case x of None \<Rightarrow> False | Some v \<Rightarrow> v \<noteq> [])"

definition or_string :: "string option \<Rightarrow> string \<Rightarrow> string" where
  "or_string x d = (case x of None \<Rightarrow> d | Some v \<Rightarrow> if v = [] then d else v)"

definition or_number :: "rat option \<Rightarrow> rat \<Rightarrow> rat" where
  "or_number x d = (case x of None \<Rightarrow> d | Some v \<Rightarrow> if v = 0 then d else v)"

section \<open>The class \<^verbatim>\<open>SoundNode\<close>\<close>

record SoundNode =
  config :: config
  gainNode :: nat
  source :: "nat option"
  filter_n :: "nat option"
  lfo :: "nat option"
  lfoGain :: "nat option"
  isPlaying :: bool

text \<open>The constructor.\<close>

definition new_SoundNode :: "config \<Rightarrow> engine \<Rightarrow> SoundNode \<times> engine" where
  "new_SoundNode cfg e =
     (let (g, e) = create_node GainNode e;
          e = update_node g (\<lambda>x. x\<lparr>gain_value := 0.5\<rparr>) e
      in (\<lparr>config = cfg, gainNode = g, source = None, filter_n = None, lfo = None,
           lfoGain = None, isPlaying = False\<rparr>, e))"

subsection \<open>\<^verbatim>\<open>start()\<close>: source creation\<close>

text \<open>
  The three buffer types share their statements: a buffer source is created, gets the
  generated buffer (whose generation used up \<open>draws\<close> calls of \<^verbatim>\<open>Math.random\<close>) and
  loops.
\<close>

definition buffer_source :: "rat list \<Rightarrow> nat \<Rightarrow> SoundNode \<Rightarrow> engine \<Rightarrow> SoundNode \<times> engine" where
  "buffer_source buf draws s e =
     (let (src, e) = create_node AudioBufferSourceNode e;
          s = s\<lparr>source := Some src\<rparr>;
          e = update_node src (\<lambda>x. x\<lparr>buffer := Some buf\<rparr>) e;
          e = e\<lparr>rand := after_draws draws (rand e)\<rparr>;
          e = update_node src (\<lambda>x. x\<lparr>loop := True\<rparr>) e
      in (s, e))"

text \<open>
  The block under \<^verbatim>\<open>if (this.config.modulation === 'pulse')\<close> inside the oscillator
  branch: an LFO, a gain \<^verbatim>\<open>lfoGain\<close> that is connected to nothing, a local
  \<^verbatim>\<open>amGain\<close>; the LFO is started, and then \<^verbatim>\<open>this.source.disconnect()\<close> undoes the
  connection of the source. The oscillator is new, so its \<^verbatim>\<open>start()\<close> does not throw.
\<close>

definition pulse_in_source_creation :: "nat \<Rightarrow> SoundNode \<Rightarrow> engine \<Rightarrow> SoundNode \<times> engine" where
  "pulse_in_source_creation src s e =
     (let (l, e) = create_node OscillatorNode e;
          s = s\<lparr>lfo := Some l\<rparr>;
          e = update_node l (\<lambda>x. x\<lparr>node_type := ''square''\<rparr>) e;
          e = update_node l (\<lambda>x. x\<lparr>frequency_value := 4\<rparr>) e;
          (lg, e) = create_node GainNode e;
          s = s\<lparr>lfoGain := Some lg\<rparr>;
          e = update_node lg (\<lambda>x. x\<lparr>gain_value := 1\<rparr>) e;
          (amGain, e) = create_node GainNode e;
          e = update_node amGain (\<lambda>x. x\<lparr>gain_value := 0\<rparr>) e;
          e = connect src (Input amGain) e;
          e = connect l (Param amGain GainParam) e;
          e = snd (start_node l e);
          e = disconnect src e
      in (s, e))"

definition source_creation :: "SoundNode \<Rightarrow> engine \<Rightarrow> outcome \<times> SoundNode \<times> engine" where
  "source_creation s e =
     (let c = config s in
      if type_c c = ''noise'' then
        (Returned,
         buffer_source (createNoiseBuffer (sampleRate e) (rand e)) (noise_draws (sampleRate e)) s e)
      else if type_c c = ''pink-noise'' then
        (Returned,
         buffer_source (createPinkNoiseBuffer (sampleRate e) (rand e)) (noise_draws (sampleRate e)) s e)
      else if type_c c = ''impulse'' then
        (let r = or_number (rate c) 5
         in (Returned,
             buffer_source (createImpulseBuffer (sampleRate e) r (rand e)) (impulse_draws r) s e))
      else if type_c c = ''oscillator'' then
        (let (src, e) = create_node OscillatorNode e;
             s = s\<lparr>source := Some src\<rparr>;
             (r, e) = set_oscillator_type src (or_string (wave c) ''sine'') e
         in case r of
              Threw x \<Rightarrow> (Threw x, s, e)
            | Returned \<Rightarrow>
                (let e = update_node src (\<lambda>x. x\<lparr>frequency_value := or_number (freq c) 440\<rparr>) e
                 in if modulation c = Some ''pulse''
                    then (Returned, pulse_in_source_creation src s e)
                    else (Returned, s, e)))
      else (Returned, s, e))"

subsection \<open>\<^verbatim>\<open>start()\<close>: filter chain\<close>

definition filter_design :: "string option \<Rightarrow> nat \<Rightarrow> engine \<Rightarrow> engine" where
  "filter_design k f e =
     (if k = Some ''lowpass'' then
        (let e = update_node f (\<lambda>x. x\<lparr>node_type := ''lowpass''\<rparr>) e
         in update_node f (\<lambda>x. x\<lparr>frequency_value := 400\<rparr>) e)
      else if k = Some ''bandpass'' then
        (let e = update_node f (\<lambda>x. x\<lparr>node_type := ''bandpass''\<rparr>) e;
             e = update_node f (\<lambda>x. x\<lparr>frequency_value := 500\<rparr>) e
         in update_node f (\<lambda>x. x\<lparr>Q_value := 1\<rparr>) e)
      else if k = Some ''highpass'' then
        (let e = update_node f (\<lambda>x. x\<lparr>node_type := ''highpass''\<rparr>) e
         in update_node f (\<lambda>x. x\<lparr>frequency_value := 800\<rparr>) e)
      else e)"

text \<open>
  The statements the branches \<^verbatim>\<open>'ocean'\<close>, \<^verbatim>\<open>'flicker'\<close> and \<^verbatim>\<open>'rhythm'\<close>
  share: an LFO (whose type is assigned only by \<^verbatim>\<open>'rhythm'\<close>) at a rate, through
  \<^verbatim>\<open>lfoGain\<close> with the depth as its gain, into \<^verbatim>\<open>filter.frequency\<close>.
\<close>

definition filter_lfo ::
  "string option \<Rightarrow> rat \<Rightarrow> rat \<Rightarrow> nat \<Rightarrow> SoundNode \<Rightarrow> engine \<Rightarrow> SoundNode \<times> engine" where
  "filter_lfo lfo_type lfo_rate depth f s e =
     (let (l, e) = create_node OscillatorNode e;
          s = s\<lparr>lfo := Some l\<rparr>;
          e = (case lfo_type of None \<Rightarrow> e
               | Some t \<Rightarrow> update_node l (\<lambda>x. x\<lparr>node_type := t\<rparr>) e);
          e = update_node l (\<lambda>x. x\<lparr>frequency_value := lfo_rate\<rparr>) e;
          (lg, e) = create_node GainNode e;
          s = s\<lparr>lfoGain := Some lg\<rparr>;
          e = update_node lg (\<lambda>x. x\<lparr>gain_value := depth\<rparr>) e;
          e = connect l (Input lg) e;
          e = connect lg (Param f FrequencyParam) e;
          e = snd (start_node l e)
      in (s, e))"

definition modulation_logic :: "nat \<Rightarrow> SoundNode \<Rightarrow> engine \<Rightarrow> SoundNode \<times> engine" where
  "modulation_logic f s e =
     (let m = modulation (config s) in
      if m = Some ''ocean'' then
        filter_lfo None 0.1 300 f s (update_node f (\<lambda>x. x\<lparr>frequency_value := 300\<rparr>) e)
      else if m = Some ''flicker'' then filter_lfo None 15 100 f s e
      else if m = Some ''rhythm'' then filter_lfo (Some ''sawtooth'') 4 200 f s e
      else (s, e))"

text \<open>
  The pulse chain as it is built again after the filter (and, word for word, in the branch
  without a filter): a new \<^verbatim>\<open>amGain\<close> fed by the source, and a new square LFO at 4 Hz
  on its gain, which replaces \<^verbatim>\<open>this.lfo\<close> and is started. Calling
  \<^verbatim>\<open>this.source.connect\<close> on \<^verbatim>\<open>null\<close> throws.
\<close>

definition pulse_chain :: "SoundNode \<Rightarrow> engine \<Rightarrow> (error + nat) \<times> SoundNode \<times> engine" where
  "pulse_chain s e =
     (let (amGain, e) = create_node GainNode e in
      case source s of
        None \<Rightarrow> (Inl TypeError, s, e)
      | Some src \<Rightarrow>
          (let e = connect src (Input amGain) e;
               (l, e) = create_node OscillatorNode e;
               s = s\<lparr>lfo := Some l\<rparr>;
               e = update_node l (\<lambda>x. x\<lparr>node_type := ''square''\<rparr>) e;
               e = update_node l (\<lambda>x. x\<lparr>frequency_value := 4\<rparr>) e;
               e = connect l (Param amGain GainParam) e;
               e = snd (start_node l e)
           in (Inr amGain, s, e)))"

text \<open>The result is \<^verbatim>\<open>outputNode\<close>, which is \<^verbatim>\<open>null\<close> when there is no source.\<close>

definition filter_chain :: "SoundNode \<Rightarrow> engine \<Rightarrow> (error + nat option) \<times> SoundNode \<times> engine" where
  "filter_chain s e =
     (let c = config s;
          pulse = (modulation c = Some ''pulse'' \<and> type_c c = ''oscillator'')
      in if truthy (filter_c c) then
           (let (f, e) = create_node BiquadFilterNode e;
                s = s\<lparr>filter_n := Some f\<rparr>;
                e = filter_design (filter_c c) f e;
                (s, e) = modulation_logic f s e
            in if pulse then
                 (case pulse_chain s e of
                    (Inl x, s, e) \<Rightarrow> (Inl x, s, e)
                  | (Inr amGain, s, e) \<Rightarrow> (Inr (Some f), s, connect amGain (Input f) e))
               else
                 (case source s of
                    None \<Rightarrow> (Inl TypeError, s, e)
                  | Some src \<Rightarrow> (Inr (Some f), s, connect src (Input f) e)))
         else if pulse then
           (case pulse_chain s e of
              (Inl x, s, e) \<Rightarrow> (Inl x, s, e)
            | (Inr amGain, s, e) \<Rightarrow> (Inr (Some amGain), s, e))
         else (Inr (source s), s, e))"

subsection \<open>\<^verbatim>\<open>start()\<close>, \<^verbatim>\<open>stop()\<close>, \<^verbatim>\<open>setVolume()\<close>\<close>

text \<open>
  An exception leaves the node and the engine as they were when it was thrown.
\<close>

definition start :: "SoundNode \<Rightarrow> engine \<Rightarrow> outcome \<times> SoundNode \<times> engine" where
  "start s e =
     (if isPlaying s then (Returned, s, e)
      else
        case source_creation s e of
          (Threw x, s, e) \<Rightarrow> (Threw x, s, e)
        | (Returned, s, e) \<Rightarrow>
            (case filter_chain s e of
               (Inl x, s, e) \<Rightarrow> (Threw x, s, e)
             | (Inr None, s, e) \<Rightarrow> (Threw TypeError, s, e)
             | (Inr (Some outputNode), s, e) \<Rightarrow>
                 (let e = connect outputNode (Input (gainNode s)) e;
                      e = connect (gainNode s) (Input (analyser e)) e
                  in case source s of
                       None \<Rightarrow> (Threw TypeError, s, e)
                     | Some src \<Rightarrow>
                         (case start_node src e of
                            (Threw x, e) \<Rightarrow> (Threw x, s, e)
                          | (Returned, e) \<Rightarrow> (Returned, s\<lparr>isPlaying := True\<rparr>, e)))))"

text \<open>
  \<^verbatim>\<open>stop()\<close> returns the delay in milliseconds of the teardown it hands to
  \<^verbatim>\<open>setTimeout\<close>, or \<open>None\<close> when it returns at once. \<^verbatim>\<open>teardown\<close> is the body of that
  callback; \<^verbatim>\<open>release\<close> is \<^verbatim>\<open>try { n.stop(); } catch(e){} n.disconnect();\<close> under
  \<^verbatim>\<open>if (n)\<close>.
\<close>

definition stop :: "SoundNode \<Rightarrow> engine \<Rightarrow> nat option \<times> engine" where
  "stop s e =
     (if \<not> isPlaying s then (None, e)
      else (Some 150, setTargetAtTime (gainNode s) 0 (currentTime e) 0.05 e))"

definition release :: "nat option \<Rightarrow> engine \<Rightarrow> engine" where
  "release x e = (case x of None \<Rightarrow> e | Some n \<Rightarrow> disconnect n (snd (stop_node n e)))"

definition teardown :: "SoundNode \<Rightarrow> engine \<Rightarrow> SoundNode \<times> engine" where
  "teardown s e =
     (let e = release (source s) e;
          e = release (lfo s) e
      in (s\<lparr>isPlaying := False\<rparr>, e))"

definition setVolume :: "SoundNode \<Rightarrow> rat \<Rightarrow> engine \<Rightarrow> engine" where
  "setVolume s val e = setTargetAtTime (gainNode s) val (currentTime e) 0.1 e"

text \<open>
  What reaches the mix bus: a source or oscillator that is started and not stopped, from
  which connections between node inputs lead to the analyser.
\<close>

fun reaches :: "nat \<Rightarrow> (nat \<times> target) list \<Rightarrow> nat \<Rightarrow> nat \<Rightarrow> bool" where
  "reaches 0 cs a b = (a = b)"
| "reaches (Suc k) cs a b =
     (a = b \<or> list_ex (\<lambda>c. fst c = a \<and> (case snd c of Input m \<Rightarrow> reaches k cs m b
                                           | Param m p \<Rightarrow> False)) cs)"

definition running :: "engine \<Rightarrow> nat \<Rightarrow> bool" where
  "running e n =
     ((kind (nodes e n) = AudioBufferSourceNode \<or> kind (nodes e n) = OscillatorNode)
      \<and> started (nodes e n) \<and> \<not> stopped (nodes e n))"

definition live_sources :: "engine \<Rightarrow> nat list" where
  "live_sources e =
     filter (\<lambda>n. running e n \<and> reaches (next_id e) (conns e) n (analyser e)) [0..<next_id e]"

definition running_oscillators :: "string \<Rightarrow> engine \<Rightarrow> nat list" where
  "running_oscillators t e =
     filter (\<lambda>n. kind (nodes e n) = OscillatorNode \<and> node_type (nodes e n) = t \<and> running e n)
       [0..<next_id e]"

section \<open>The page: \<^verbatim>\<open>initAudio\<close>, the cards and the timers\<close>

text \<open>
  What \<^verbatim>\<open>new AudioContext()\<close> gives on the machine at hand: its sample rate, the state
  it starts in, and the future of \<^verbatim>\<open>Math.random\<close>.
\<close>

record platform =
  hw_sampleRate :: nat
  initial_state :: ctx_state
  random_source :: random

text \<open>
  A callback given to \<^verbatim>\<open>setTimeout\<close>: the teardown of \<^verbatim>\<open>stop()\<close>, which holds the
  \<^verbatim>\<open>SoundNode\<close> it was made for, and the clean-up of the click handler, which holds the
  sound's id.
\<close>

datatype callback = Teardown nat | DropReference string

text \<open>
  \<open>audio\<close> is \<open>None\<close> while \<^verbatim>\<open>audioCtx\<close> is undefined. \<^verbatim>\<open>SoundNode\<close> objects live
  in \<open>objects\<close> and are referred to by number, from \<^verbatim>\<open>activeSounds\<close> and from pending
  teardowns. A card is active when its class list contains \<^verbatim>\<open>'active'\<close>. Time is in
  milliseconds.
\<close>

record world =
  platform :: platform
  audio :: "engine option"
  activeSounds :: "string \<Rightarrow> nat option"
  objects :: "nat \<Rightarrow> SoundNode option"
  next_object :: nat
  card_active :: "string \<Rightarrow> bool"
  slider_value :: "string \<Rightarrow> rat"
  timers :: "(nat \<times> callback) list"
  clock :: nat

text \<open>The page after \<^verbatim>\<open>createUI()\<close>: no card active, every slider at 0.5.\<close>

definition page_loaded :: "platform \<Rightarrow> world" where
  "page_loaded p =
     \<lparr>platform = p, audio = None, activeSounds = (\<lambda>i. None), objects = (\<lambda>r. None),
      next_object = 0, card_active = (\<lambda>i. False), slider_value = (\<lambda>i. 0.5), timers = [],
      clock = 0\<rparr>"

definition new_AudioContext :: "platform \<Rightarrow> engine" where
  "new_AudioContext p =
     \<lparr>sampleRate = hw_sampleRate p, currentTime = 0, state = initial_state p,
      resume_pending = False, next_id = 1,
      nodes = (\<lambda>n. default_node DestinationNode), conns = [], destination = 0, analyser = 0,
      rand = random_source p\<rparr>"

text \<open>
  \<^verbatim>\<open>initAudio\<close>: the context and the analyser (with \<^verbatim>\<open>fftSize\<close> 256, connected to the
  destination) are made when there is no context yet; on a suspended context
  \<^verbatim>\<open>resume()\<close> is called. The call does not change the state: the context is still
  suspended when the handler goes on to \<^verbatim>\<open>start()\<close>.
\<close>

definition initAudio :: "world \<Rightarrow> world" where
  "initAudio w =
     (let e = (case audio w of
                 Some e \<Rightarrow> e
               | None \<Rightarrow>
                   (let e = new_AudioContext (platform w);
                        (a, e) = create_node AnalyserNode e;
                        e = e\<lparr>analyser := a\<rparr>;
                        e = update_node a (\<lambda>x. x\<lparr>fftSize := 256\<rparr>) e
                    in connect a (Input (destination e)) e));
          e = (if state e = Suspended then e\<lparr>resume_pending := True\<rparr> else e)
      in w\<lparr>audio := Some e\<rparr>)"

definition setTimeout :: "callback \<Rightarrow> nat \<Rightarrow> world \<Rightarrow> world" where
  "setTimeout cb ms w = w\<lparr>timers := timers w @ [(clock w + ms, cb)]\<rparr>"

text \<open>
  The click handler of the card of \<open>sound\<close>. An exception of \<^verbatim>\<open>start()\<close> ends the handler
  before \<^verbatim>\<open>setVolume\<close>. The two branches \<open>None\<close> on \<open>audio\<close> and on \<open>objects\<close> stand
  for reading an undefined global and cannot be reached after \<^verbatim>\<open>initAudio\<close>.
\<close>

definition click :: "config \<Rightarrow> world \<Rightarrow> outcome \<times> world" where
  "click sound w =
     (let w = initAudio w;
          i = id_c sound;
          w = w\<lparr>card_active := (card_active w)(i := \<not> card_active w i)\<rparr>
      in case audio w of
           None \<Rightarrow> (Threw TypeError, w)
         | Some e \<Rightarrow>
             (let (r, w, e) =
                    (case activeSounds w i of
                       Some r \<Rightarrow> (r, w, e)
                     | None \<Rightarrow>
                         (let (s, e) = new_SoundNode sound e;
                              r = next_object w
                          in (r, w\<lparr>objects := (objects w)(r := Some s), next_object := r + 1,
                                    activeSounds := (activeSounds w)(i := Some r)\<rparr>, e)))
              in case objects w r of
                   None \<Rightarrow> (Threw TypeError, w\<lparr>audio := Some e\<rparr>)
                 | Some s \<Rightarrow>
                     if card_active w i then
                       (case start s e of
                          (Threw x, s, e) \<Rightarrow>
                            (Threw x, w\<lparr>objects := (objects w)(r := Some s), audio := Some e\<rparr>)
                        | (Returned, s, e) \<Rightarrow>
                            (Returned, w\<lparr>objects := (objects w)(r := Some s),
                                         audio := Some (setVolume s (slider_value w i) e)\<rparr>))
                     else
                       (let (t, e) = stop s e;
                            w = w\<lparr>audio := Some e\<rparr>;
                            w = (case t of None \<Rightarrow> w | Some ms \<Rightarrow> setTimeout (Teardown r) ms w);
                            w = setTimeout (DropReference i) 200 w
                        in (Returned, w))))"

text \<open>The \<^verbatim>\<open>input\<close> handler of a slider.\<close>

definition slider_input :: "string \<Rightarrow> rat \<Rightarrow> world \<Rightarrow> world" where
  "slider_input i v w =
     (let w = w\<lparr>slider_value := (slider_value w)(i := v)\<rparr>
      in case activeSounds w i of
           None \<Rightarrow> w
         | Some r \<Rightarrow>
             (case (objects w r, audio w) of
                (Some s, Some e) \<Rightarrow> w\<lparr>audio := Some (setVolume s v e)\<rparr>
              | _ \<Rightarrow> w))"

definition run_callback :: "callback \<Rightarrow> world \<Rightarrow> world" where
  "run_callback cb w =
     (case cb of
        Teardown r \<Rightarrow>
          (case (objects w r, audio w) of
             (Some s, Some e) \<Rightarrow>
               (let (s, e) = teardown s e
                in w\<lparr>objects := (objects w)(r := Some s), audio := Some e\<rparr>)
           | _ \<Rightarrow> w)
      | DropReference i \<Rightarrow>
          (if \<not> card_active w i then w\<lparr>activeSounds := (activeSounds w)(i := None)\<rparr> else w))"

text \<open>
  Letting \<open>ms\<close> milliseconds pass: the callbacks due by then run in the order of their
  times (callbacks of equal time in the order they were set); the clock of a running audio
  context moves along. No callback of the program sets a timer. A pending
  \<^verbatim>\<open>resume()\<close> is settled once the handler that called it has returned, so at the
  start of the interval: the call came from a click, which the browser takes as the user's
  consent to play, and the context runs from then on.
\<close>

definition settle_resume :: "engine \<Rightarrow> engine" where
  "settle_resume e =
     (if resume_pending e then e\<lparr>state := Running, resume_pending := False\<rparr> else e)"

definition advance :: "nat \<Rightarrow> world \<Rightarrow> world" where
  "advance ms w =
     (let t = clock w + ms;
          due = sort_key fst (filter (\<lambda>x. fst x \<le> t) (timers w));
          w = w\<lparr>timers := filter (\<lambda>x. \<not> fst x \<le> t) (timers w), clock := t\<rparr>;
          w = (case audio w of
                 None \<Rightarrow> w
               | Some e \<Rightarrow>
                   (let e = settle_resume e
                    in if state e = Running
                       then w\<lparr>audio := Some (e\<lparr>currentTime := currentTime e + of_nat ms / 1000\<rparr>)\<rparr>
                       else w\<lparr>audio := Some e\<rparr>))
      in foldl (\<lambda>w x. run_callback (snd x) w) w due)"

text \<open>A machine for the examples: 44100 Hz, a context that starts suspended.\<close>

definition laptop :: platform where
  "laptop = \<lparr>hw_sampleRate = 44100, initial_state = Suspended, random_source = stream_of []\<rparr>"

definition sound :: "string \<Rightarrow> config" where
  "sound i = (case List.find (\<lambda>c. id_c c = i) sounds of Some c \<Rightarrow> c | None \<Rightarrow> plain i [])"

section \<open>Notions used to state the results\<close>

text \<open>The statements \<^verbatim>\<open>node.start(); node.start();\<close>: an exception ends the sequence.\<close>

definition start_twice :: "SoundNode \<Rightarrow> engine \<Rightarrow> outcome \<times> SoundNode \<times> engine" where
  "start_twice s e =
     (case start s e of
        (Threw x, s, e) \<Rightarrow> (Threw x, s, e)
      | (Returned, s, e) \<Rightarrow> start s e)"

text \<open>
  An LFO drives the cutoff of the node's filter through \<^verbatim>\<open>lfoGain\<close>: the oscillator
  has the given waveform and rate and is running, the coupling gain has the given depth,
  and the two connections exist.
\<close>

definition cutoff_lfo :: "SoundNode \<Rightarrow> engine \<Rightarrow> string \<Rightarrow> rat \<Rightarrow> rat \<Rightarrow> bool" where
  "cutoff_lfo s e waveform lfo_rate depth =
     (case (filter_n s, lfo s, lfoGain s) of
        (Some f, Some l, Some g) \<Rightarrow>
          kind (nodes e f) = BiquadFilterNode
          \<and> kind (nodes e l) = OscillatorNode
          \<and> node_type (nodes e l) = waveform
          \<and> frequency_value (nodes e l) = lfo_rate
          \<and> started (nodes e l) \<and> \<not> stopped (nodes e l)
          \<and> kind (nodes e g) = GainNode
          \<and> gain_value (nodes e g) = depth
          \<and> (l, Input g) \<in> set (conns e)
          \<and> (g, Param f FrequencyParam) \<in> set (conns e)
      | _ \<Rightarrow> False)"

definition cutoff_base :: "SoundNode \<Rightarrow> engine \<Rightarrow> rat option" where
  "cutoff_base s e = map_option (\<lambda>f. frequency_value (nodes e f)) (filter_n s)"

text \<open>
  Nodes and engines for the examples: the engine of the example machine once
  \<^verbatim>\<open>initAudio\<close> has run; a node as constructed for a sound of the table; the same after
  \<^verbatim>\<open>start()\<close>; and after \<^verbatim>\<open>start()\<close>, \<^verbatim>\<open>stop()\<close> and the teardown.
\<close>

definition studio :: engine where
  "studio = (case audio (initAudio (page_loaded laptop)) of
               Some e \<Rightarrow> e
             | None \<Rightarrow> new_AudioContext laptop)"

definition fresh_node :: "string \<Rightarrow> SoundNode \<times> engine" where
  "fresh_node i = new_SoundNode (sound i) studio"

definition started_node :: "string \<Rightarrow> outcome \<times> SoundNode \<times> engine" where
  "started_node i = (case fresh_node i of (s, e) \<Rightarrow> start s e)"

definition torn_down_node :: "string \<Rightarrow> SoundNode \<times> engine" where
  "torn_down_node i =
     (case started_node i of
        (r, s, e) \<Rightarrow> (case stop s e of (t, e) \<Rightarrow> teardown s e))"

text \<open>
  The same node used once more: \<^verbatim>\<open>start()\<close> after the teardown (a click on the card
  before the click handler has dropped the node), and then \<^verbatim>\<open>stop()\<close> and the teardown
  again.
\<close>

definition restarted_node :: "string \<Rightarrow> outcome \<times> SoundNode \<times> engine" where
  "restarted_node i = (case torn_down_node i of (s, e) \<Rightarrow> start s e)"

definition torn_down_again :: "string \<Rightarrow> SoundNode \<times> engine" where
  "torn_down_again i =
     (case restarted_node i of
        (r, s, e) \<Rightarrow> (case stop s e of (t, e) \<Rightarrow> teardown s e))"

text \<open>
  What holds of a \<^verbatim>\<open>SoundNode\<close> from its construction on, whatever was called on it
  (it is shown with claim C3 that the constructor gives it and that \<^verbatim>\<open>start()\<close>,
  \<^verbatim>\<open>stop()\<close>, the teardown and \<^verbatim>\<open>setVolume()\<close> keep it): its gain, its source
  and its LFO are nodes of the context, the gain is neither its source nor its LFO, and its
  LFO has been started. While \<^verbatim>\<open>isPlaying\<close> is set, its source has been started,
  its gain is connected to the analyser, and the filter of a sound that has one is
  connected to the gain and is neither the source nor the LFO.
\<close>

definition sound_node_ok :: "SoundNode \<Rightarrow> engine \<Rightarrow> bool" where
  "sound_node_ok s e =
     (gainNode s < next_id e
      \<and> (case source s of None \<Rightarrow> True | Some n \<Rightarrow> n < next_id e \<and> n \<noteq> gainNode s)
      \<and> (case lfo s of
            None \<Rightarrow> True
          | Some l \<Rightarrow> l < next_id e \<and> l \<noteq> gainNode s \<and> started (nodes e l))
      \<and> (isPlaying s \<longrightarrow>
            (case source s of None \<Rightarrow> False | Some n \<Rightarrow> started (nodes e n))
            \<and> (gainNode s, Input (analyser e)) \<in> set (conns e)
            \<and> (truthy (filter_c (config s)) \<longrightarrow>
                  (case filter_n s of
                     None \<Rightarrow> False
                   | Some f \<Rightarrow> (f, Input (gainNode s)) \<in> set (conns e)
                       \<and> Some f \<noteq> source s \<and> Some f \<noteq> lfo s))))"

text \<open>
  Three clicks on a card, 20 ms apart (so the third comes before the teardown of the second
  is due), then \<open>ms\<close> milliseconds of waiting.
\<close>

definition triple_click :: "string \<Rightarrow> nat \<Rightarrow> world" where
  "triple_click i ms =
     (let w = snd (click (sound i) (page_loaded laptop));
          w = advance 20 w;
          w = snd (click (sound i) w);
          w = advance 20 w;
          w = snd (click (sound i) w)
      in advance ms w)"

definition node_of :: "string \<Rightarrow> world \<Rightarrow> SoundNode option" where
  "node_of i w = (case activeSounds w i of None \<Rightarrow> None | Some r \<Rightarrow> objects w r)"

definition live_in :: "world \<Rightarrow> nat list" where
  "live_in w = (case audio w of None \<Rightarrow> [] | Some e \<Rightarrow> live_sources e)"

section \<open>Notions used in the proofs\<close>

text \<open>
  What a phase of \<^verbatim>\<open>start()\<close> leaves alone: the nodes below \<open>b\<close>, the connections
  there were, the analyser, the random stream and the clock. What it leaves alone in the
  \<^verbatim>\<open>SoundNode\<close>. And what it does to \<^verbatim>\<open>this.lfo\<close>: nothing, or a new oscillator
  that is running.
\<close>

definition frame :: "nat \<Rightarrow> engine \<Rightarrow> engine \<Rightarrow> bool" where
  "frame b e e' =
     (next_id e \<le> next_id e' \<and> (\<forall>n<b. nodes e' n = nodes e n)
      \<and> set (conns e) \<subseteq> set (conns e') \<and> rand e' = rand e \<and> analyser e' = analyser e
      \<and> sampleRate e' = sampleRate e \<and> currentTime e' = currentTime e)"

definition same_node :: "SoundNode \<Rightarrow> SoundNode \<Rightarrow> bool" where
  "same_node s s' =
     (config s' = config s \<and> gainNode s' = gainNode s \<and> source s' = source s
      \<and> isPlaying s' = isPlaying s)"

definition lfo_step :: "SoundNode \<Rightarrow> engine \<Rightarrow> SoundNode \<Rightarrow> engine \<Rightarrow> bool" where
  "lfo_step s e s' e' =
     (lfo s' = lfo s
      \<or> (\<exists>l. lfo s' = Some l \<and> next_id e \<le> l \<and> l < next_id e'
              \<and> started (nodes e' l) \<and> \<not> stopped (nodes e' l)))"

section \<open>Properties of the signal generators\<close>

declare noise_loop.simps [simp del] pink_loop.simps [simp del] impulse_loop.simps [simp del]

lemma length_store: "length (store data idx v) = length data"
  by (simp add: store_def)

lemma nth_store:
  "j < length data \<Longrightarrow> store data (int i) v ! j = (if j = i then v else data ! j)"
  by (simp add: store_def)

subsection \<open>Pink noise\<close>

lemma length_pink_loop: "length (pink_loop n i rnd r data) = length data"
proof (induction n i rnd r data rule: pink_loop.induct)
  case (1 n i rnd r data)
  show ?case
  proof (cases "i < n")
    case True
    with "1" show ?thesis
      by (subst pink_loop.simps) (simp add: length_store split: prod.splits)
  next
    case False
    then show ?thesis by (subst pink_loop.simps) simp
  qed
qed

text \<open>
  The invariant of the loop: when pass \<open>i\<close> begins with the registers that \<open>i\<close> passes
  produce, sample \<open>j\<close> of the result is what pass \<open>j\<close> computes.
\<close>

lemma nth_pink_loop:
  "j < length data \<Longrightarrow> j < n \<Longrightarrow>
   pink_loop n i rnd (pink_regs_after rnd i) data ! j =
     (if i \<le> j then fst (pink_body (pink_regs_after rnd j) (white_at rnd j)) else data ! j)"
proof (induction n i rnd "pink_regs_after rnd i" data rule: pink_loop.induct)
  case (1 n i rnd data)
  show ?case
  proof (cases "i < n")
    case True
    obtain sample r' where b: "pink_body (pink_regs_after rnd i) (rnd i * 2 - 1) = (sample, r')"
      by (cases "pink_body (pink_regs_after rnd i) (rnd i * 2 - 1)")
    have r': "r' = pink_regs_after rnd (i + 1)"
      using b by (simp add: white_at_def)
    have sample: "sample = fst (pink_body (pink_regs_after rnd i) (white_at rnd i))"
      using b by (simp add: white_at_def)
    have step: "pink_loop n i rnd (pink_regs_after rnd i) data =
                pink_loop n (i + 1) rnd (pink_regs_after rnd (i + 1)) (store data (int i) sample)"
      using True b unfolding r' by (subst pink_loop.simps) (simp del: pink_regs_after.simps)
    have ih: "pink_loop n (i + 1) rnd (pink_regs_after rnd (i + 1)) (store data (int i) sample) ! j =
          (if i + 1 \<le> j then fst (pink_body (pink_regs_after rnd j) (white_at rnd j))
           else store data (int i) sample ! j)"
      using "1.hyps"[OF True refl refl, of sample] b "1.prems" unfolding r'
      by (simp add: length_store del: pink_regs_after.simps)
    consider "j < i" | "j = i" | "i < j" by linarith
    then show ?thesis
      unfolding step ih using "1.prems" sample
      by cases (simp_all add: nth_store del: pink_regs_after.simps)
  next
    case False
    then show ?thesis using "1.prems" by (subst pink_loop.simps) simp
  qed
qed

lemma pink_sample:
  "i < 2 * sr \<Longrightarrow>
   createPinkNoiseBuffer sr rnd ! i = fst (pink_body (pink_regs_after rnd i) (white_at rnd i))"
  using nth_pink_loop[of i "createBuffer (sr * 2)" "sr * 2" 0 rnd]
  by (simp add: createPinkNoiseBuffer_def createBuffer_def Let_def mult.commute)

lemma two_draws_regs1:
  "pink_regs_after (stream_of [3/4, 1/2]) (Suc 0) =
    \<lparr>b0 = 0.02775895, b1 = 0.03753795, b2 = 0.076926, b3 = 0.1552428, b4 = 0.2664761,
     b5 = - 0.00844905, b6 = 0.057963\<rparr>"
  by (simp add: pink_body_def pink_zero_def white_at_def stream_of_def)

lemma two_draws_regs2:
  "pink_regs_after (stream_of [3/4, 1/2]) (Suc (Suc 0)) =
    \<lparr>b0 = 0.99886 * 0.02775895, b1 = 0.99332 * 0.03753795, b2 = 0.969 * 0.076926,
     b3 = 0.8665 * 0.1552428, b4 = 0.55 * 0.2664761, b5 = 0.7616 * 0.00844905, b6 = 0\<rparr>"
  unfolding pink_regs_after.simps(2)[of _ "Suc 0"] two_draws_regs1
  by (simp add: pink_body_def white_at_def stream_of_def)

text \<open>
  Claim C4, as the code has it. The buffer holds two seconds. With the registers started
  at zero for each buffer and carried from sample to sample, each of the six recursive
  registers \<open>b0 .. b5\<close> is updated with its coefficient and input weight, and a seventh
  register \<open>b6\<close> holds 0.115926 times the white-noise input of the step before. Sample
  \<open>i\<close> is the sum of the six updated registers, of \<open>b6\<close> as the step before left it,
  and of 0.5362 times the white-noise input, all scaled by 0.11. The specification's
  formula leaves the term \<open>b6\<close> out.
\<close>

theorem pink_noise_samples:
  "length (createPinkNoiseBuffer sr rnd) = 2 * sr
   \<and> pink_regs_after rnd 0 = \<lparr>b0 = 0, b1 = 0, b2 = 0, b3 = 0, b4 = 0, b5 = 0, b6 = 0\<rparr>
   \<and> pink_regs_after rnd (Suc i) =
       \<lparr>b0 = 0.99886 * b0 (pink_regs_after rnd i) + white_at rnd i * 0.0555179,
        b1 = 0.99332 * b1 (pink_regs_after rnd i) + white_at rnd i * 0.0750759,
        b2 = 0.96900 * b2 (pink_regs_after rnd i) + white_at rnd i * 0.1538520,
        b3 = 0.86650 * b3 (pink_regs_after rnd i) + white_at rnd i * 0.3104856,
        b4 = 0.55000 * b4 (pink_regs_after rnd i) + white_at rnd i * 0.5329522,
        b5 = - 0.7616 * b5 (pink_regs_after rnd i) + white_at rnd i * (- 0.0168981),
        b6 = white_at rnd i * 0.115926\<rparr>
   \<and> (i < 2 * sr \<longrightarrow>
        createPinkNoiseBuffer sr rnd ! i =
          (b0 (pink_regs_after rnd (Suc i)) + b1 (pink_regs_after rnd (Suc i))
           + b2 (pink_regs_after rnd (Suc i)) + b3 (pink_regs_after rnd (Suc i))
           + b4 (pink_regs_after rnd (Suc i)) + b5 (pink_regs_after rnd (Suc i))
           + b6 (pink_regs_after rnd i) + 0.5362 * white_at rnd i) * 0.11)"
proof -
  have len: "length (createPinkNoiseBuffer sr rnd) = 2 * sr"
    by (simp add: createPinkNoiseBuffer_def length_pink_loop createBuffer_def Let_def)
  have zero: "pink_regs_after rnd 0 = \<lparr>b0 = 0, b1 = 0, b2 = 0, b3 = 0, b4 = 0, b5 = 0, b6 = 0\<rparr>"
    by (simp add: pink_zero_def)
  have step: "pink_regs_after rnd (Suc i) =
       \<lparr>b0 = 0.99886 * b0 (pink_regs_after rnd i) + white_at rnd i * 0.0555179,
        b1 = 0.99332 * b1 (pink_regs_after rnd i) + white_at rnd i * 0.0750759,
        b2 = 0.96900 * b2 (pink_regs_after rnd i) + white_at rnd i * 0.1538520,
        b3 = 0.86650 * b3 (pink_regs_after rnd i) + white_at rnd i * 0.3104856,
        b4 = 0.55000 * b4 (pink_regs_after rnd i) + white_at rnd i * 0.5329522,
        b5 = - 0.7616 * b5 (pink_regs_after rnd i) + white_at rnd i * (- 0.0168981),
        b6 = white_at rnd i * 0.115926\<rparr>"
    by (simp add: pink_body_def Let_def)
  have nth: "i < 2 * sr \<longrightarrow>
        createPinkNoiseBuffer sr rnd ! i =
          (b0 (pink_regs_after rnd (Suc i)) + b1 (pink_regs_after rnd (Suc i))
           + b2 (pink_regs_after rnd (Suc i)) + b3 (pink_regs_after rnd (Suc i))
           + b4 (pink_regs_after rnd (Suc i)) + b5 (pink_regs_after rnd (Suc i))
           + b6 (pink_regs_after rnd i) + 0.5362 * white_at rnd i) * 0.11"
    using pink_sample[of i sr rnd]
    by (auto simp: pink_body_def Let_def mult.commute)
  show ?thesis
    using len zero step nth by blast
qed

theorem pink_noise_samples_witness:
  "(1::nat) < 2 * 44100
   \<and> createPinkNoiseBuffer 44100 (stream_of [3/4, 1/2]) ! 1 = 5335366662681 / 100000000000000"
proof -
  have "createPinkNoiseBuffer 44100 (stream_of [3/4, 1/2]) ! Suc 0
          = 5335366662681 / 100000000000000"
    using pink_noise_samples[of 44100 "stream_of [3/4, 1/2]" "Suc 0"]
    unfolding two_draws_regs1 two_draws_regs2 by (simp add: white_at_def stream_of_def)
  then show ?thesis by simp
qed

text \<open>
  The formula of the specification fails at the second sample when the first white-noise
  input is not zero: the code adds 0.115926 times that input.
\<close>

theorem pink_six_state_formula_counterexample:
  "createPinkNoiseBuffer 44100 (stream_of [3/4, 1/2]) ! 1
     \<noteq> spec_pink_sample (stream_of [3/4, 1/2]) 1"
proof -
  have code: "createPinkNoiseBuffer 44100 (stream_of [3/4, 1/2]) ! Suc 0
          = 5335366662681 / 100000000000000"
    using pink_sample[of "Suc 0" 44100 "stream_of [3/4, 1/2]"]
    unfolding two_draws_regs1 by (simp add: pink_body_def white_at_def stream_of_def)
  have spec: "spec_pink_sample (stream_of [3/4, 1/2]) (Suc 0)
          = 4697773662681 / 100000000000000"
    unfolding spec_pink_sample_def two_draws_regs2 Let_def
    by (simp add: white_at_def stream_of_def)
  show ?thesis
    using code spec by simp
qed

subsection \<open>Rounding to 32-bit floats\<close>

















subsection \<open>Impulse train\<close>

text \<open>The loop is a fold over the pop numbers.\<close>

lemma impulse_loop_unroll:
  "impulse_loop tp bs i rnd data =
     foldl (\<lambda>d k. store d (pop_index bs rnd k) (pop_amplitude rnd k)) data [i..<nat \<lceil>tp\<rceil>]"
proof (induction tp bs i rnd data rule: impulse_loop.induct)
  case (1 tp bs i rnd data)
  have iff: "of_nat i < tp \<longleftrightarrow> i < nat \<lceil>tp\<rceil>"
  proof -
    have "of_nat i < tp \<longleftrightarrow> int i < \<lceil>tp\<rceil>"
      by (simp add: less_ceiling_iff)
    then show ?thesis by linarith
  qed
  show ?case
  proof (cases "of_nat i < tp")
    case True
    then have "impulse_loop tp bs i rnd data =
        impulse_loop tp bs (i + 1) rnd (store data (pop_index bs rnd i) (pop_amplitude rnd i))"
      by (subst impulse_loop.simps) simp
    also have "\<dots> = foldl (\<lambda>d k. store d (pop_index bs rnd k) (pop_amplitude rnd k))
                    (store data (pop_index bs rnd i) (pop_amplitude rnd i)) [i + 1..<nat \<lceil>tp\<rceil>]"
      using "1.IH" True by simp
    finally show ?thesis
      using True iff by (simp add: upt_conv_Cons)
  next
    case False
    then show ?thesis using iff by (subst impulse_loop.simps) simp
  qed
qed

lemma createImpulseBuffer_unroll:
  "createImpulseBuffer sr pps rnd =
     foldl (\<lambda>d k. store d (pop_index (sr * 4) rnd k) (pop_amplitude rnd k))
       (replicate (sr * 4) 0) [0..<total_pops pps]"
  using impulse_loop_unroll[of "pps * 4" "sr * 4" 0 rnd "replicate (sr * 4) 0"]
  by (simp add: createImpulseBuffer_def createBuffer_def total_pops_def Let_def)

lemma total_pops_whole: "total_pops (of_nat r) = 4 * r"
proof -
  have "(of_nat r * 4 :: rat) = of_int (int (4 * r))" by simp
  then have "\<lceil>of_nat r * 4 :: rat\<rceil> = int (4 * r)"
    by (simp only: ceiling_of_int)
  then show ?thesis by (simp add: total_pops_def)
qed



















section \<open>Properties of \<^verbatim>\<open>SoundNode\<close>\<close>

lemmas engine_defs =
  create_node_def update_node_def disconnect_def start_node_def stop_node_def
  setTargetAtTime_def set_oscillator_type_def default_node_def

lemmas start_defs =
  start_def source_creation_def buffer_source_def pulse_in_source_creation_def
  filter_chain_def filter_design_def modulation_logic_def filter_lfo_def pulse_chain_def

lemmas example_defs =
  studio_def fresh_node_def started_node_def torn_down_node_def restarted_node_def
  torn_down_again_def sound_def sounds_def plain_def
  laptop_def page_loaded_def initAudio_def new_AudioContext_def new_SoundNode_def

lemmas stop_defs = stop_def teardown_def release_def setVolume_def

lemmas page_defs =
  click_def setTimeout_def run_callback_def advance_def settle_resume_def triple_click_def
  node_of_def live_in_def

text \<open>
  For evaluating the program on given inputs: the argument of a \<open>let\<close> or \<open>case\<close> is
  evaluated before its body is looked at.
\<close>

lemmas eval_congs =
  let_weak_cong prod.case_cong_weak option.case_cong_weak sum.case_cong_weak
  outcome.case_cong_weak

lemma conns_connect:
  "conns (connect a t e) = (if (a, t) \<in> set (conns e) then conns e else conns e @ [(a, t)])"
  by (simp add: connect_def)

subsection \<open>What the phases of \<^verbatim>\<open>start()\<close> leave alone\<close>

lemma connect_simps [simp]:
  "nodes (connect a t e) = nodes e"
  "next_id (connect a t e) = next_id e"
  "analyser (connect a t e) = analyser e"
  "destination (connect a t e) = destination e"
  "rand (connect a t e) = rand e"
  "sampleRate (connect a t e) = sampleRate e"
  "currentTime (connect a t e) = currentTime e"
  "state (connect a t e) = state e"
  "resume_pending (connect a t e) = resume_pending e"
  "set (conns (connect a t e)) = insert (a, t) (set (conns e))"
  by (auto simp: connect_def)

lemma frame_refl [simp]: "frame b e e"
  by (simp add: frame_def)

lemma frame_trans: "frame b e1 e2 \<Longrightarrow> frame b e2 e3 \<Longrightarrow> frame b e1 e3"
  by (auto simp: frame_def)

lemma frame_connect [simp]: "frame b e (connect a t e)"
  by (auto simp: frame_def)

lemma frame_create: "b \<le> next_id e \<Longrightarrow> frame b e (snd (create_node k e))"
  by (simp add: frame_def create_node_def)

lemma frame_update: "b \<le> n \<Longrightarrow> frame b e (update_node n f e)"
  by (simp add: frame_def update_node_def)

lemma frame_start_node: "b \<le> n \<Longrightarrow> frame b e (snd (start_node n e))"
  by (simp add: frame_def start_node_def update_node_def)

lemma frame_mono: "frame b e e' \<Longrightarrow> c \<le> b \<Longrightarrow> frame c e e'"
  by (auto simp: frame_def)

lemma frame_filter_design: "b \<le> f \<Longrightarrow> frame b e (filter_design k f e)"
  by (simp add: frame_def filter_design_def update_node_def Let_def)

lemma next_id_filter_design [simp]: "next_id (filter_design k f e) = next_id e"
  by (simp add: filter_design_def update_node_def Let_def)

lemma kind_filter_design [simp]:
  "kind (nodes (filter_design k f e) n) = kind (nodes e n)"
  by (simp add: filter_design_def update_node_def Let_def)

lemma filter_lfo_effect:
  assumes "b \<le> next_id e"
  shows "case filter_lfo t r d f s e of (s', e') \<Rightarrow>
           frame b e e' \<and> same_node s s' \<and> filter_n s' = filter_n s
           \<and> lfo s' = Some (next_id e) \<and> next_id e' = next_id e + 2
           \<and> started (nodes e' (next_id e)) \<and> \<not> stopped (nodes e' (next_id e))"
  using assms
  by (auto simp: filter_lfo_def create_node_def update_node_def start_node_def default_node_def
      frame_def same_node_def Let_def split: option.split)

lemma modulation_logic_effect:
  assumes "b \<le> next_id e" and "b \<le> f"
  shows "case modulation_logic f s e of (s', e') \<Rightarrow>
           frame b e e' \<and> same_node s s' \<and> filter_n s' = filter_n s \<and> lfo_step s e s' e'"
proof -
  have u: "frame b e (update_node f g e)" for g
    using assms(2) by (rule frame_update)
  have n: "next_id (update_node f g e) = next_id e" for g
    by (simp add: update_node_def)
  have "case filter_lfo t r d f s e' of (s', e'') \<Rightarrow>
          frame b e e'' \<and> same_node s s' \<and> filter_n s' = filter_n s \<and> lfo_step s e s' e''"
    if "frame b e e'" "next_id e' = next_id e" for t r d e'
    using filter_lfo_effect[where b=b and e=e' and t=t and r=r and d=d and f=f and s=s] that assms(1)
    by (auto simp: lfo_step_def dest: frame_trans split: prod.splits)
  then show ?thesis
    using u n by (simp add: modulation_logic_def Let_def lfo_step_def same_node_def)
qed

lemma pulse_chain_effect:
  assumes "b \<le> next_id e"
  shows "case pulse_chain s e of (r, s', e') \<Rightarrow>
           frame b e e' \<and> same_node s s' \<and> filter_n s' = filter_n s \<and> lfo_step s e s' e'
           \<and> (source s \<noteq> None \<longrightarrow> (\<exists>am. r = Inr am))"
  using assms
  by (auto simp: pulse_chain_def create_node_def update_node_def start_node_def default_node_def
      frame_def same_node_def lfo_step_def Let_def split: option.split)

lemma lfo_step_refl: "lfo s' = lfo s \<Longrightarrow> lfo_step s e s' e'"
  by (simp add: lfo_step_def)

lemma lfo_step_trans:
  "lfo_step s1 e1 s2 e2 \<Longrightarrow> lfo_step s2 e2 s3 e3 \<Longrightarrow> frame (next_id e2) e2 e3 \<Longrightarrow>
   next_id e1 \<le> next_id e2 \<Longrightarrow> lfo_step s1 e1 s3 e3"
  unfolding lfo_step_def frame_def
  by (elim disjE exE conjE) (simp, simp, force, force)

lemma lfo_step_frame:
  "lfo_step s1 e1 s2 e2 \<Longrightarrow> frame (next_id e2) e2 e3 \<Longrightarrow> lfo_step s1 e1 s2 e3"
  unfolding lfo_step_def frame_def by force

lemma filter_chain_effect:
  assumes "b \<le> next_id e"
  shows "case filter_chain s e of (r, s', e') \<Rightarrow>
           frame b e e' \<and> same_node s s' \<and> lfo_step s e s' e'
           \<and> (filter_n s' = filter_n s \<or> filter_n s' = Some (next_id e))
           \<and> (source s \<noteq> None \<longrightarrow> (\<exists>out. r = Inr (Some out)))"
proof -
  let ?c = "config s"
  let ?pulse = "modulation ?c = Some ''pulse'' \<and> type_c ?c = ''oscillator''"
  show ?thesis
  proof (cases "truthy (filter_c ?c)")
    case True
    define f where "f = next_id e"
    define e1 where "e1 = snd (create_node BiquadFilterNode e)"
    define s1 where "s1 = s\<lparr>filter_n := Some f\<rparr>"
    define e2 where "e2 = filter_design (filter_c ?c) f e1"
    obtain s3 e3 where m: "modulation_logic f s1 e2 = (s3, e3)" by force
    have n1: "next_id e1 = f + 1" by (simp add: e1_def f_def create_node_def)
    have n2: "next_id e2 = f + 1" by (simp add: e2_def n1)
    have bf: "b \<le> f" using assms by (simp add: f_def)
    have f1: "frame c e e1" if "c \<le> f" for c
      unfolding e1_def using that by (intro frame_create) (simp add: f_def)
    have f2: "frame c e1 e2" if "c \<le> f" for c
      unfolding e2_def using that by (rule frame_filter_design)
    have m3: "frame c e2 e3 \<and> same_node s1 s3 \<and> filter_n s3 = filter_n s1 \<and> lfo_step s1 e2 s3 e3"
      if "c \<le> f" for c
      using modulation_logic_effect[of c e2 f s1] m that n2 by simp
    have fe3: "frame b e e3"
      using f1[OF bf] f2[OF bf] m3[OF bf] frame_trans by blast
    have s3: "same_node s s3" "filter_n s3 = Some f"
      using m3[OF bf] by (simp_all add: same_node_def s1_def)
    have l3: "lfo_step s e s3 e3"
      using m3[OF bf] n2 by (auto simp: lfo_step_def s1_def f_def)
    have unfold: "filter_chain s e =
        (if ?pulse then
           (case pulse_chain s3 e3 of
              (Inl x, s, e) \<Rightarrow> (Inl x, s, e)
            | (Inr amGain, s, e) \<Rightarrow> (Inr (Some f), s, connect amGain (Input f) e))
         else
           (case source s3 of
              None \<Rightarrow> (Inl TypeError, s3, e3)
            | Some src \<Rightarrow> (Inr (Some f), s3, connect src (Input f) e3)))"
      using True m unfolding f_def e1_def s1_def e2_def
      by (simp add: filter_chain_def Let_def create_node_def)
    show ?thesis
    proof (cases ?pulse)
      case pulse: True
      obtain r4 s4 e4 where p: "pulse_chain s3 e3 = (r4, s4, e4)"
        by (cases "pulse_chain s3 e3") auto
      have p4: "frame c e3 e4 \<and> same_node s3 s4 \<and> filter_n s4 = filter_n s3
                \<and> lfo_step s3 e3 s4 e4 \<and> (source s3 \<noteq> None \<longrightarrow> (\<exists>am. r4 = Inr am))"
        if "c \<le> next_id e3" for c
        using pulse_chain_effect[of c e3 s3] p that by simp
      have b3: "b \<le> next_id e3" using fe3 assms by (simp add: frame_def)
      have fe4: "frame b e e4" using fe3 p4[OF b3] frame_trans by blast
      have s4: "same_node s s4" "filter_n s4 = Some f"
        using s3 p4[OF b3] by (simp_all add: same_node_def)
      have "next_id e \<le> next_id e3" using fe3 by (simp add: frame_def)
      then have l4: "lfo_step s e s4 e4"
        using l3 p4[OF order_refl] by (auto intro: lfo_step_trans)
      have l4': "lfo_step s e s4 (connect a t e4)" for a t
        by (rule lfo_step_frame[OF l4]) simp
      have fe4': "frame b e (connect a t e4)" for a t
        using fe4 frame_connect frame_trans by blast
      have r4: "source s \<noteq> None \<longrightarrow> (\<exists>am. r4 = Inr am)"
        using p4[OF b3] s3 by (simp add: same_node_def)
      show ?thesis
        unfolding unfold using pulse p fe4 fe4' s4 l4 l4' r4
        by (cases r4) (auto simp: f_def)
    next
      case nopulse: False
      have l3': "lfo_step s e s3 (connect a t e3)" for a t
        by (rule lfo_step_frame[OF l3]) simp
      have fe3': "frame b e (connect a t e3)" for a t
        using fe3 frame_connect frame_trans by blast
      have src: "source s3 = source s" using s3 by (simp add: same_node_def)
      show ?thesis
        unfolding unfold using nopulse fe3 fe3' s3 l3 l3' src
        by (cases "source s") (auto simp: f_def)
    qed
  next
    case False
    show ?thesis
    proof (cases ?pulse)
      case pulse: True
      obtain r4 s4 e4 where p: "pulse_chain s e = (r4, s4, e4)"
        by (cases "pulse_chain s e") auto
      have p4: "frame b e e4 \<and> same_node s s4 \<and> filter_n s4 = filter_n s
                \<and> lfo_step s e s4 e4 \<and> (source s \<noteq> None \<longrightarrow> (\<exists>am. r4 = Inr am))"
        using pulse_chain_effect[of b e s] p assms by simp
      have "filter_chain s e =
              (case r4 of Inl x \<Rightarrow> (Inl x, s4, e4) | Inr amGain \<Rightarrow> (Inr (Some amGain), s4, e4))"
        using False pulse p by (simp add: filter_chain_def Let_def split: sum.splits)
      then show ?thesis
        using p4 by (cases r4) auto
    next
      case nopulse: False
      have "filter_chain s e = (Inr (source s), s, e)"
        using False nopulse by (auto simp: filter_chain_def Let_def)
      then show ?thesis
        by (auto simp: same_node_def lfo_step_def)
    qed
  qed
qed

lemma buffer_source_effect:
  assumes "b \<le> next_id e"
  shows "case buffer_source buf draws s e of (s', e') \<Rightarrow>
           next_id e < next_id e' \<and> (\<forall>n<b. nodes e' n = nodes e n)
           \<and> analyser e' = analyser e \<and> sampleRate e' = sampleRate e
           \<and> currentTime e' = currentTime e
           \<and> config s' = config s \<and> gainNode s' = gainNode s \<and> isPlaying s' = isPlaying s
           \<and> filter_n s' = filter_n s \<and> lfo s' = lfo s
           \<and> source s' = Some (next_id e)
           \<and> \<not> started (nodes e' (next_id e)) \<and> \<not> stopped (nodes e' (next_id e))"
  using assms
  by (simp add: buffer_source_def create_node_def update_node_def default_node_def Let_def)

lemma pulse_in_source_creation_effect:
  assumes "b \<le> src" and "src < next_id e"
  shows "case pulse_in_source_creation src s e of (s', e') \<Rightarrow>
           next_id e < next_id e' \<and> (\<forall>n<b. nodes e' n = nodes e n)
           \<and> nodes e' src = nodes e src
           \<and> analyser e' = analyser e \<and> sampleRate e' = sampleRate e
           \<and> currentTime e' = currentTime e
           \<and> config s' = config s \<and> gainNode s' = gainNode s \<and> isPlaying s' = isPlaying s
           \<and> filter_n s' = filter_n s \<and> source s' = source s
           \<and> lfo s' = Some (next_id e)
           \<and> started (nodes e' (next_id e)) \<and> \<not> stopped (nodes e' (next_id e))"
  using assms
  by (simp add: pulse_in_source_creation_def create_node_def update_node_def default_node_def
      start_node_def disconnect_def Let_def)

lemma source_creation_effect:
  assumes "b \<le> next_id e"
  shows "case source_creation s e of (r, s', e') \<Rightarrow>
           next_id e \<le> next_id e' \<and> (\<forall>n<b. nodes e' n = nodes e n)
           \<and> analyser e' = analyser e \<and> sampleRate e' = sampleRate e
           \<and> currentTime e' = currentTime e
           \<and> config s' = config s \<and> gainNode s' = gainNode s \<and> isPlaying s' = isPlaying s
           \<and> filter_n s' = filter_n s \<and> lfo_step s e s' e'
           \<and> (source s' = source s
               \<or> (source s' = Some (next_id e) \<and> next_id e < next_id e'
                   \<and> \<not> started (nodes e' (next_id e)) \<and> \<not> stopped (nodes e' (next_id e))))"
proof -
  let ?c = "config s"
  have buf: ?thesis if "source_creation s e = (Returned, buffer_source buf draws s e)" for buf draws
    using buffer_source_effect[OF assms, where buf=buf and draws=draws and s=s] that
    by (auto simp: lfo_step_def split: prod.splits)
  consider (noise) "type_c ?c = ''noise''"
    | (pink) "type_c ?c = ''pink-noise''"
    | (impulse) "type_c ?c = ''impulse''"
    | (osc) "type_c ?c = ''oscillator''"
    | (other) "type_c ?c \<notin> {''noise'', ''pink-noise'', ''impulse'', ''oscillator''}"
    by auto
  then show ?thesis
  proof cases
    case noise
    then show ?thesis by (intro buf) (simp add: source_creation_def)
  next
    case pink
    then show ?thesis by (intro buf) (simp add: source_creation_def)
  next
    case impulse
    then show ?thesis by (intro buf) (simp add: source_creation_def Let_def)
  next
    case other
    then have "source_creation s e = (Returned, s, e)"
      by (simp add: source_creation_def)
    then show ?thesis by (simp add: lfo_step_def)
  next
    case osc
    define src where "src = next_id e"
    define e1 where "e1 = snd (create_node OscillatorNode e)"
    define s1 where "s1 = s\<lparr>source := Some src\<rparr>"
    obtain r e2 where t: "set_oscillator_type src (or_string (wave ?c) ''sine'') e1 = (r, e2)"
      by force
    have e1: "next_id e1 = src + 1" "\<forall>n<b. nodes e1 n = nodes e n"
      "analyser e1 = analyser e" "sampleRate e1 = sampleRate e" "currentTime e1 = currentTime e"
      "\<not> started (nodes e1 src)" "\<not> stopped (nodes e1 src)"
      using assms by (simp_all add: e1_def src_def create_node_def default_node_def)
    have e2: "next_id e2 = src + 1" "\<forall>n<b. nodes e2 n = nodes e n"
      "analyser e2 = analyser e" "sampleRate e2 = sampleRate e" "currentTime e2 = currentTime e"
      "\<not> started (nodes e2 src)" "\<not> stopped (nodes e2 src)"
      using t e1 assms
      by (auto simp: set_oscillator_type_def update_node_def src_def split: if_splits)
    define e3 where "e3 = update_node src (\<lambda>x. x\<lparr>frequency_value := or_number (freq ?c) 440\<rparr>) e2"
    have e3: "next_id e3 = src + 1" "\<forall>n<b. nodes e3 n = nodes e n"
      "analyser e3 = analyser e" "sampleRate e3 = sampleRate e" "currentTime e3 = currentTime e"
      "\<not> started (nodes e3 src)" "\<not> stopped (nodes e3 src)"
      using e2 assms by (simp_all add: e3_def update_node_def src_def)
    have unfold: "source_creation s e =
        (case r of
           Threw x \<Rightarrow> (Threw x, s1, e2)
         | Returned \<Rightarrow>
             if modulation ?c = Some ''pulse''
             then (Returned, pulse_in_source_creation src s1 e3)
             else (Returned, s1, e3))"
      using osc t unfolding src_def e1_def s1_def e3_def
      by (simp add: source_creation_def Let_def create_node_def split: outcome.splits)
    show ?thesis
    proof (cases r)
      case (Threw x)
      then show ?thesis
        unfolding unfold using e2 by (simp add: s1_def lfo_step_def src_def)
    next
      case Returned
      show ?thesis
      proof (cases "modulation ?c = Some ''pulse''")
        case False
        then show ?thesis
          unfolding unfold using Returned e3 by (simp add: s1_def lfo_step_def src_def)
      next
        case True
        have "b \<le> src" "src < next_id e3" using assms e3 by (simp_all add: src_def)
        from pulse_in_source_creation_effect[OF this, where s=s1]
        show ?thesis
          unfolding unfold using Returned True e3
          by (auto simp: s1_def lfo_step_def src_def split: prod.splits)
      qed
    qed
  qed
qed
lemma start_returned_cases:
  assumes "start s e = (Returned, s', e')" and "\<not> isPlaying s"
  shows "\<exists>s1 e1 out s2 e2 src.
           source_creation s e = (Returned, s1, e1)
           \<and> filter_chain s1 e1 = (Inr (Some out), s2, e2)
           \<and> source s2 = Some src \<and> \<not> started (nodes e2 src)
           \<and> s' = s2\<lparr>isPlaying := True\<rparr>
           \<and> e' = update_node src (\<lambda>x. x\<lparr>started := True\<rparr>)
                    (connect (gainNode s2) (Input (analyser e2))
                       (connect out (Input (gainNode s2)) e2))"
  using assms
  by (auto simp: start_def Let_def start_node_def
      split: prod.splits outcome.splits sum.splits option.splits if_splits)

lemma start_from_phases:
  assumes "\<not> isPlaying s"
    and "source_creation s e = (Returned, s1, e1)"
    and "filter_chain s1 e1 = (Inr (Some out), s2, e2)"
    and "source s2 = Some src" and "\<not> started (nodes e2 src)"
  shows "start s e =
           (Returned, s2\<lparr>isPlaying := True\<rparr>,
            update_node src (\<lambda>x. x\<lparr>started := True\<rparr>)
              (connect (gainNode s2) (Input (analyser e2))
                 (connect out (Input (gainNode s2)) e2)))"
  using assms by (simp add: start_def Let_def start_node_def)

subsection \<open>Idempotence and volume\<close>

lemma start_returned_playing:
  "start s e = (Returned, s', e') \<Longrightarrow> isPlaying s'"
  by (auto simp: start_def Let_def
      split: if_splits prod.splits outcome.splits sum.splits option.splits)

lemma start_returned_playing':
  "fst (start s e) = Returned \<Longrightarrow> isPlaying (fst (snd (start s e)))"
  by (cases "start s e") (auto dest: start_returned_playing)

lemma start_noop: "isPlaying s \<Longrightarrow> start s e = (Returned, s, e)"
  by (simp add: start_def)

text \<open>
  Claim C7. A node whose \<^verbatim>\<open>isPlaying\<close> is set (which the code has in place of the
  states Starting, Playing and Stopping: it is set by \<^verbatim>\<open>start()\<close> and cleared only by the
  teardown) is left as it is by \<^verbatim>\<open>start()\<close>, and so is the engine: no node, no
  connection and no change of state. So \<^verbatim>\<open>start(); start();\<close> is \<^verbatim>\<open>start();\<close>, from
  every state.
\<close>

theorem start_idempotent:
  "(isPlaying s \<longrightarrow> start s e = (Returned, s, e)) \<and> start_twice s e = start s e"
proof -
  have "start_twice s e = start s e"
  proof (cases "start s e")
    case (fields r s' e')
    show ?thesis
    proof (cases r)
      case Returned
      then have "isPlaying s'" using fields start_returned_playing by blast
      then show ?thesis using fields Returned by (simp add: start_twice_def start_noop)
    next
      case (Threw x)
      then show ?thesis using fields by (simp add: start_twice_def)
    qed
  qed
  then show ?thesis by (simp add: start_noop)
qed

lemma started_node_start:
  "started_node i = start (fst (fresh_node i)) (snd (fresh_node i))"
  by (simp add: started_node_def case_prod_beta)

lemma rain_started: "fst (started_node ''rain'') = Returned"
  by (simp add: example_defs start_defs engine_defs conns_connect truthy_def Let_def
      cong: eval_congs)

theorem start_idempotent_witness:
  "isPlaying (fst (snd (started_node ''rain'')))
   \<and> start (fst (snd (started_node ''rain''))) (snd (snd (started_node ''rain'')))
       = (Returned, fst (snd (started_node ''rain'')), snd (snd (started_node ''rain'')))
   \<and> start_twice (fst (fresh_node ''rain'')) (snd (fresh_node ''rain'')) = started_node ''rain''"
proof -
  have p: "isPlaying (fst (snd (started_node ''rain'')))"
    using rain_started start_returned_playing'[of "fst (fresh_node ''rain'')" "snd (fresh_node ''rain'')"]
    by (simp add: started_node_start)
  have t: "start_twice (fst (fresh_node ''rain'')) (snd (fresh_node ''rain'')) = started_node ''rain''"
    using start_idempotent[of "fst (fresh_node ''rain'')" "snd (fresh_node ''rain'')"]
    by (simp add: started_node_start)
  show ?thesis
    using start_idempotent[of "fst (snd (started_node ''rain''))" "snd (snd (started_node ''rain''))"] p t
    by simp
qed

text \<open>
  Claim C5, as the code has it. \<^verbatim>\<open>setVolume(val)\<close> checks nothing: for every number,
  inside \<open>[0, 1]\<close> or outside, and in every state of the node, it asks the node's gain to
  approach \<open>val\<close> from the current time with time constant 0.1 s, and changes nothing else.
\<close>

theorem setVolume_unchecked:
  "setVolume s val e =
     e\<lparr>nodes := (nodes e)(gainNode s :=
          (nodes e (gainNode s))\<lparr>gain_target := Some (val, currentTime e, 0.1)\<rparr>)\<rparr>"
  by (simp add: setVolume_def setTargetAtTime_def update_node_def)

text \<open>A volume of 2 is not rejected: it becomes the target of the gain.\<close>

theorem setVolume_out_of_range_counterexample:
  "gain_target (nodes (snd (fresh_node ''rain'')) (gainNode (fst (fresh_node ''rain'')))) = None
   \<and> gain_target (nodes (setVolume (fst (fresh_node ''rain'')) 2 (snd (fresh_node ''rain'')))
                     (gainNode (fst (fresh_node ''rain''))))
       = Some (2, 0, 0.1)"
  by (simp add: example_defs engine_defs conns_connect setVolume_def Let_def cong: eval_congs)

subsection \<open>The default rate of the impulse train\<close>

lemma total_pops_5: "total_pops 5 = 20"
  using total_pops_whole[of 5] by simp

lemma impulse_draws_5: "impulse_draws 5 = 40"
  by (simp add: impulse_draws_def total_pops_5)

lemma createImpulseBuffer_5:
  "createImpulseBuffer sr 5 rnd =
     foldl (\<lambda>d k. store d (pop_index (sr * 4) rnd k) (pop_amplitude rnd k))
       (replicate (sr * 4) 0) [0..<20]"
  using createImpulseBuffer_unroll[of sr 5 rnd] by (simp add: total_pops_5)

text \<open>
  Claim C10. For an idle node whose sound has type \<^verbatim>\<open>'impulse'\<close> and no rate, or the
  rate 0, \<^verbatim>\<open>start()\<close> completes, and its source is a new looping buffer source, started,
  whose buffer is the impulse buffer of rate 5; \<^verbatim>\<open>Math.random\<close> has been called 40
  times, and the buffer is silence with 20 pops written, one after the other.
\<close>

theorem impulse_default_rate:
  assumes "type_c (config s) = ''impulse''"
    and "rate (config s) = None \<or> rate (config s) = Some 0"
    and "\<not> isPlaying s"
  shows "(case start s e of (r, s', e') \<Rightarrow>
            r = Returned \<and> source s' = Some (next_id e)
            \<and> kind (nodes e' (next_id e)) = AudioBufferSourceNode
            \<and> buffer (nodes e' (next_id e)) = Some (createImpulseBuffer (sampleRate e) 5 (rand e))
            \<and> loop (nodes e' (next_id e)) \<and> started (nodes e' (next_id e))
            \<and> rand e' = after_draws (2 * 20) (rand e))
         \<and> createImpulseBuffer (sampleRate e) 5 (rand e) =
             foldl (\<lambda>d k. store d (pop_index (sampleRate e * 4) (rand e) k)
                                 (pop_amplitude (rand e) k))
               (replicate (sampleRate e * 4) 0) [0..<20]"
proof -
  define src where "src = next_id e"
  define buf where "buf = createImpulseBuffer (sampleRate e) 5 (rand e)"
  have r: "or_number (rate (config s)) 5 = 5"
    using assms(2) by (auto simp: or_number_def)
  obtain s1 e1 where b: "buffer_source buf 40 s e = (s1, e1)" by force
  have sc: "source_creation s e = (Returned, s1, e1)"
    using assms(1) b r by (simp add: source_creation_def Let_def impulse_draws_5 buf_def)
  have s1: "source s1 = Some src" "kind (nodes e1 src) = AudioBufferSourceNode"
    "buffer (nodes e1 src) = Some buf" "loop (nodes e1 src)" "\<not> started (nodes e1 src)"
    "rand e1 = after_draws 40 (rand e)" "next_id e1 = src + 1"
    using b
    by (auto simp: buffer_source_def create_node_def update_node_def default_node_def Let_def
        src_def)
  obtain r2 s2 e2 where fc: "filter_chain s1 e1 = (r2, s2, e2)"
    by (cases "filter_chain s1 e1") auto
  have fr: "frame (next_id e1) e1 e2" "same_node s1 s2" "\<exists>out. r2 = Inr (Some out)"
    using filter_chain_effect[of "next_id e1" e1 s1] fc s1(1) by simp_all
  then obtain out where r2: "r2 = Inr (Some out)" by blast
  have n: "nodes e2 src = nodes e1 src" "rand e2 = rand e1"
    using fr(1) s1(7) by (simp_all add: frame_def)
  have src2: "source s2 = Some src"
    using fr(2) s1(1) by (simp add: same_node_def)
  have st: "start s e =
           (Returned, s2\<lparr>isPlaying := True\<rparr>,
            update_node src (\<lambda>x. x\<lparr>started := True\<rparr>)
              (connect (gainNode s2) (Input (analyser e2))
                 (connect out (Input (gainNode s2)) e2)))"
    using assms(3) sc fc[unfolded r2] src2 n(1) s1(5) by (intro start_from_phases) simp_all
  have "case start s e of (r, s', e') \<Rightarrow>
            r = Returned \<and> source s' = Some (next_id e)
            \<and> kind (nodes e' (next_id e)) = AudioBufferSourceNode
            \<and> buffer (nodes e' (next_id e)) = Some (createImpulseBuffer (sampleRate e) 5 (rand e))
            \<and> loop (nodes e' (next_id e)) \<and> started (nodes e' (next_id e))
            \<and> rand e' = after_draws (2 * 20) (rand e)"
    unfolding st using src2 n s1 by (simp add: update_node_def src_def buf_def)
  then show ?thesis
    using createImpulseBuffer_5 by blast
qed

theorem impulse_default_rate_witness:
  "type_c (config (fst (new_SoundNode (plain ''pops'' ''impulse'') studio))) = ''impulse''
   \<and> rate (config (fst (new_SoundNode (plain ''pops'' ''impulse'') studio))) = None
   \<and> \<not> isPlaying (fst (new_SoundNode (plain ''pops'' ''impulse'') studio))
   \<and> next_id (snd (new_SoundNode (plain ''pops'' ''impulse'') studio)) = 3
   \<and> sampleRate (snd (new_SoundNode (plain ''pops'' ''impulse'') studio)) = 44100
   \<and> fst (start (fst (new_SoundNode (plain ''pops'' ''impulse'') studio))
               (snd (new_SoundNode (plain ''pops'' ''impulse'') studio))) = Returned
   \<and> buffer (nodes (snd (snd (start (fst (new_SoundNode (plain ''pops'' ''impulse'') studio))
                                    (snd (new_SoundNode (plain ''pops'' ''impulse'') studio))))) 3)
       = Some (createImpulseBuffer 44100 5
                 (rand (snd (new_SoundNode (plain ''pops'' ''impulse'') studio))))"
proof -
  let ?s = "fst (new_SoundNode (plain ''pops'' ''impulse'') studio)"
  let ?e = "snd (new_SoundNode (plain ''pops'' ''impulse'') studio)"
  have h: "type_c (config ?s) = ''impulse''" "rate (config ?s) = None \<or> rate (config ?s) = Some 0"
    "\<not> isPlaying ?s" "rate (config ?s) = None" "next_id ?e = 3" "sampleRate ?e = 44100"
    by (simp_all add: example_defs engine_defs conns_connect Let_def cong: eval_congs)
  show ?thesis
    using impulse_default_rate[OF h(1,2,3), of ?e] h
    by (simp add: case_prod_beta)
qed

subsection \<open>The LFO on the filter cutoff\<close>

lemma filter_lfo_cutoff:
  assumes "filter_n s = Some f" and "f < next_id e" and "kind (nodes e f) = BiquadFilterNode"
  shows "case filter_lfo t r d f s e of (s', e') \<Rightarrow>
           cutoff_lfo s' e' (case t of None \<Rightarrow> ''sine'' | Some w \<Rightarrow> w) r d
           \<and> cutoff_base s' e' = Some (frequency_value (nodes e f))"
  using assms
  by (simp add: filter_lfo_def cutoff_lfo_def cutoff_base_def create_node_def update_node_def
      start_node_def default_node_def Let_def split: option.split)

text \<open>
  The wiring survives what \<^verbatim>\<open>start()\<close> does afterwards: new connections, and the start of
  the source.
\<close>

lemma cutoff_lfo_kept:
  assumes "cutoff_lfo s e w r d"
    and "filter_n s' = filter_n s" and "lfo s' = lfo s" and "lfoGain s' = lfoGain s"
    and "set (conns e) \<subseteq> set (conns e')"
    and "\<And>n. nodes e' n = nodes e n \<or> nodes e' n = (nodes e n)\<lparr>started := True\<rparr>"
  shows "cutoff_lfo s' e' w r d"
proof -
  obtain f l g where i: "filter_n s = Some f" "lfo s = Some l" "lfoGain s = Some g"
    using assms(1) by (auto simp: cutoff_lfo_def split: option.splits)
  have n: "kind (nodes e' n) = kind (nodes e n)" "node_type (nodes e' n) = node_type (nodes e n)"
    "frequency_value (nodes e' n) = frequency_value (nodes e n)"
    "gain_value (nodes e' n) = gain_value (nodes e n)"
    "stopped (nodes e' n) = stopped (nodes e n)"
    "started (nodes e n) \<Longrightarrow> started (nodes e' n)" for n
    using assms(6)[of n] by auto
  show ?thesis
    using assms(1-5) i by (auto simp: cutoff_lfo_def n)
qed

lemma cutoff_base_kept:
  assumes "filter_n s' = filter_n s"
    and "\<And>n. nodes e' n = nodes e n \<or> nodes e' n = (nodes e n)\<lparr>started := True\<rparr>"
  shows "cutoff_base s' e' = cutoff_base s e"
proof (cases "filter_n s")
  case None
  then show ?thesis using assms(1) by (simp add: cutoff_base_def)
next
  case (Some f)
  have "frequency_value (nodes e' f) = frequency_value (nodes e f)"
    using assms(2)[of f] by auto
  then show ?thesis using assms(1) Some by (simp add: cutoff_base_def)
qed

lemma filter_chain_cutoff:
  assumes "truthy (filter_c (config s))"
    and "modulation (config s) = Some m"
    and "m = ''ocean'' \<or> m = ''flicker'' \<or> m = ''rhythm''"
    and "filter_chain s e = (Inr (Some out), s2, e2)"
  shows "(m = ''ocean'' \<longrightarrow> cutoff_lfo s2 e2 ''sine'' 0.1 300 \<and> cutoff_base s2 e2 = Some 300)
       \<and> (m = ''flicker'' \<longrightarrow> cutoff_lfo s2 e2 ''sine'' 15 100)
       \<and> (m = ''rhythm'' \<longrightarrow> cutoff_lfo s2 e2 ''sawtooth'' 4 200)"
proof -
  define f where "f = next_id e"
  define s1 where "s1 = s\<lparr>filter_n := Some f\<rparr>"
  define e1 where
    "e1 = filter_design (filter_c (config s)) f (snd (create_node BiquadFilterNode e))"
  define e1' where "e1' = update_node f (\<lambda>x. x\<lparr>frequency_value := 300\<rparr>) e1"
  obtain s3 e3 where m: "modulation_logic f s1 e1 = (s3, e3)" by force
  have nopulse: "m \<noteq> ''pulse''" using assms(3) by auto
  have pre: "filter_n s1 = Some f" "f < next_id e1" "kind (nodes e1 f) = BiquadFilterNode"
    "f < next_id e1'" "kind (nodes e1' f) = BiquadFilterNode"
    "frequency_value (nodes e1' f) = 300"
    by (simp_all add: s1_def e1_def e1'_def f_def create_node_def default_node_def update_node_def)
  have lfo: "case filter_lfo t r d f s1 e1 of (s', e') \<Rightarrow>
           cutoff_lfo s' e' (case t of None \<Rightarrow> ''sine'' | Some w \<Rightarrow> w) r d" for t r d
    using filter_lfo_cutoff[OF pre(1-3), where t=t and r=r and d=d]
    by (simp split: prod.splits)
  have lfo': "case filter_lfo t r d f s1 e1' of (s', e') \<Rightarrow>
           cutoff_lfo s' e' (case t of None \<Rightarrow> ''sine'' | Some w \<Rightarrow> w) r d
           \<and> cutoff_base s' e' = Some 300" for t r d
    using filter_lfo_cutoff[OF pre(1) pre(4,5), where t=t and r=r and d=d] pre(6)
    by (simp split: prod.splits)
  have c3: "(m = ''ocean'' \<longrightarrow> cutoff_lfo s3 e3 ''sine'' 0.1 300 \<and> cutoff_base s3 e3 = Some 300)
       \<and> (m = ''flicker'' \<longrightarrow> cutoff_lfo s3 e3 ''sine'' 15 100)
       \<and> (m = ''rhythm'' \<longrightarrow> cutoff_lfo s3 e3 ''sawtooth'' 4 200)"
    using m assms(2) lfo[of None 15 100] lfo[of "Some ''sawtooth''" 4 200] lfo'[of None "0.1" 300]
    by (auto simp: modulation_logic_def Let_def s1_def e1'_def)
  have unfold: "filter_chain s e =
           (case source s3 of
              None \<Rightarrow> (Inl TypeError, s3, e3)
            | Some src \<Rightarrow> (Inr (Some f), s3, connect src (Input f) e3))"
    using assms(1,2) nopulse m unfolding f_def s1_def e1_def
    by (simp add: filter_chain_def Let_def create_node_def)
  obtain src where r: "s2 = s3" "e2 = connect src (Input f) e3"
    using assms(4) unfolding unfold by (auto split: option.splits)
  have k: "cutoff_lfo s3 e3 w r' d \<Longrightarrow> cutoff_lfo s2 e2 w r' d" for w r' d
    unfolding r by (erule cutoff_lfo_kept) auto
  have b: "cutoff_base s2 e2 = cutoff_base s3 e3"
    unfolding r by (rule cutoff_base_kept) auto
  show ?thesis
    using c3 k b by auto
qed

lemma table_filters:
  "list_all (\<lambda>c. modulation c \<in> {Some ''ocean'', Some ''flicker'', Some ''rhythm''}
                \<longrightarrow> truthy (filter_c c)) sounds"
  by (simp add: sounds_def plain_def truthy_def)

text \<open>
  Claim C8. For every sound that has a filter, whenever \<^verbatim>\<open>start()\<close> of an idle node
  completes: modulation \<^verbatim>\<open>'ocean'\<close> (slow-sweep) leaves a running sine LFO (the default
  waveform) at 0.1 Hz, through a gain of 300, on the cutoff of the filter, whose base is
  300 Hz; \<^verbatim>\<open>'flicker'\<close> (fast-flicker) a sine LFO at 15 Hz through a gain of 100;
  \<^verbatim>\<open>'rhythm'\<close> (rhythmic-sweep) a sawtooth LFO at 4 Hz through a gain of 200.
  Every sound of the table with one of these modulations has a filter.
\<close>

theorem filter_cutoff_modulation:
  assumes "\<not> isPlaying s" and "truthy (filter_c (config s))"
    and "start s e = (Returned, s', e')"
  shows "(modulation (config s) = Some ''ocean''
            \<longrightarrow> cutoff_lfo s' e' ''sine'' 0.1 300 \<and> cutoff_base s' e' = Some 300)
       \<and> (modulation (config s) = Some ''flicker'' \<longrightarrow> cutoff_lfo s' e' ''sine'' 15 100)
       \<and> (modulation (config s) = Some ''rhythm'' \<longrightarrow> cutoff_lfo s' e' ''sawtooth'' 4 200)
       \<and> list_all (\<lambda>c. modulation c \<in> {Some ''ocean'', Some ''flicker'', Some ''rhythm''}
                         \<longrightarrow> truthy (filter_c c)) sounds"
proof (cases "\<exists>m. modulation (config s) = Some m
                \<and> (m = ''ocean'' \<or> m = ''flicker'' \<or> m = ''rhythm'')")
  case False
  then show ?thesis using table_filters by auto
next
  case True
  then obtain m where m: "modulation (config s) = Some m"
    "m = ''ocean'' \<or> m = ''flicker'' \<or> m = ''rhythm''" by blast
  obtain s1 e1 out s2 e2 src where p:
    "source_creation s e = (Returned, s1, e1)"
    "filter_chain s1 e1 = (Inr (Some out), s2, e2)"
    "s' = s2\<lparr>isPlaying := True\<rparr>"
    "e' = update_node src (\<lambda>x. x\<lparr>started := True\<rparr>)
            (connect (gainNode s2) (Input (analyser e2)) (connect out (Input (gainNode s2)) e2))"
    using start_returned_cases[OF assms(3,1)] by blast
  have c: "config s1 = config s"
    using source_creation_effect[of 0 e s] p(1) by simp
  have fc: "(m = ''ocean'' \<longrightarrow> cutoff_lfo s2 e2 ''sine'' 0.1 300 \<and> cutoff_base s2 e2 = Some 300)
       \<and> (m = ''flicker'' \<longrightarrow> cutoff_lfo s2 e2 ''sine'' 15 100)
       \<and> (m = ''rhythm'' \<longrightarrow> cutoff_lfo s2 e2 ''sawtooth'' 4 200)"
    using filter_chain_cutoff[of s1 m e1 out s2 e2] assms(2) m p(2) c by simp
  have k: "cutoff_lfo s2 e2 w r d \<Longrightarrow> cutoff_lfo s' e' w r d" for w r d
    unfolding p(3,4) by (erule cutoff_lfo_kept) (auto simp: update_node_def)
  have b: "cutoff_base s' e' = cutoff_base s2 e2"
    unfolding p(3,4) by (rule cutoff_base_kept) (auto simp: update_node_def)
  show ?thesis
    using fc k b m table_filters by auto
qed

lemma ocean_started: "fst (started_node ''ocean'') = Returned"
  by (simp add: example_defs start_defs engine_defs conns_connect truthy_def Let_def
      cong: eval_congs)

lemma fire_started: "fst (started_node ''fire'') = Returned"
  by (simp add: example_defs start_defs engine_defs conns_connect truthy_def Let_def
      cong: eval_congs)

lemma train_started: "fst (started_node ''train'') = Returned"
  by (simp add: example_defs start_defs engine_defs conns_connect truthy_def Let_def
      cong: eval_congs)

lemma fresh_node_idle:
  "\<not> isPlaying (fst (fresh_node i))" "config (fst (fresh_node i)) = sound i"
  by (simp_all add: fresh_node_def new_SoundNode_def create_node_def Let_def)

lemma sound_table:
  "sound ''ocean'' = (plain ''ocean'' ''pink-noise'')\<lparr>filter_c := Some ''lowpass'', modulation := Some ''ocean''\<rparr>"
  "sound ''fire'' = (plain ''fire'' ''noise'')\<lparr>filter_c := Some ''lowpass'', modulation := Some ''flicker''\<rparr>"
  "sound ''train'' = (plain ''train'' ''pink-noise'')\<lparr>filter_c := Some ''lowpass'', modulation := Some ''rhythm''\<rparr>"
  "sound ''rain'' = (plain ''rain'' ''noise'')\<lparr>filter_c := Some ''lowpass''\<rparr>"
  "sound ''crickets'' = (plain ''crickets'' ''oscillator'')\<lparr>freq := Some 4000, modulation := Some ''pulse''\<rparr>"
  by (simp_all add: sound_def sounds_def plain_def)

theorem filter_cutoff_modulation_witness:
  "\<not> isPlaying (fst (fresh_node ''ocean''))
   \<and> truthy (filter_c (config (fst (fresh_node ''ocean''))))
   \<and> fst (started_node ''ocean'') = Returned
   \<and> modulation (config (fst (fresh_node ''ocean''))) = Some ''ocean''
   \<and> cutoff_lfo (fst (snd (started_node ''ocean''))) (snd (snd (started_node ''ocean'')))
       ''sine'' 0.1 300
   \<and> cutoff_base (fst (snd (started_node ''ocean''))) (snd (snd (started_node ''ocean'')))
       = Some 300
   \<and> modulation (config (fst (fresh_node ''fire''))) = Some ''flicker''
   \<and> cutoff_lfo (fst (snd (started_node ''fire''))) (snd (snd (started_node ''fire'')))
       ''sine'' 15 100
   \<and> modulation (config (fst (fresh_node ''train''))) = Some ''rhythm''
   \<and> cutoff_lfo (fst (snd (started_node ''train''))) (snd (snd (started_node ''train'')))
       ''sawtooth'' 4 200"
proof -
  have st: "start (fst (fresh_node i)) (snd (fresh_node i))
              = (Returned, fst (snd (started_node i)), snd (snd (started_node i)))"
    if "fst (started_node i) = Returned" for i
    using that by (simp add: started_node_start prod_eq_iff)
  have c: "truthy (filter_c (config (fst (fresh_node ''ocean''))))"
    "truthy (filter_c (config (fst (fresh_node ''fire''))))"
    "truthy (filter_c (config (fst (fresh_node ''train''))))"
    "modulation (config (fst (fresh_node ''ocean''))) = Some ''ocean''"
    "modulation (config (fst (fresh_node ''fire''))) = Some ''flicker''"
    "modulation (config (fst (fresh_node ''train''))) = Some ''rhythm''"
    by (simp_all add: fresh_node_idle sound_table plain_def truthy_def)
  show ?thesis
    using filter_cutoff_modulation[OF fresh_node_idle(1) c(1) st[OF ocean_started]]
      filter_cutoff_modulation[OF fresh_node_idle(1) c(2) st[OF fire_started]]
      filter_cutoff_modulation[OF fresh_node_idle(1) c(3) st[OF train_started]]
      c ocean_started fresh_node_idle(1)
    by simp
qed

subsection \<open>Stopping\<close>

lemma release_effect:
  "analyser (release x e) = analyser e"
  "set (conns (release x e)) = {c \<in> set (conns e). Some (fst c) \<noteq> x}"
  "stopped (nodes e n) \<Longrightarrow> stopped (nodes (release x e) n)"
  "started (nodes (release x e) n) = started (nodes e n)"
  "started (nodes e m) \<Longrightarrow> stopped (nodes (release (Some m) e) m)"
  by (auto simp: release_def disconnect_def stop_node_def update_node_def split: option.splits)

lemma release_frame:
  "next_id (release x e) = next_id e"
  "conns (release x e) = filter (\<lambda>c. Some (fst c) \<noteq> x) (conns e)"
  by (auto simp: release_def disconnect_def stop_node_def update_node_def split: option.splits
      intro: filter_cong)

text \<open>
  When the sound has a filter, the chain ends in the filter made at its beginning, and an
  LFO made in the chain comes after it.
\<close>

lemma filter_chain_filter:
  assumes "truthy (filter_c (config s))"
    and "filter_chain s e = (Inr (Some out), s', e')"
  shows "out = next_id e \<and> filter_n s' = Some (next_id e) \<and> next_id e < next_id e'
    \<and> (lfo s' = lfo s \<or> (\<exists>l. lfo s' = Some l \<and> next_id e < l))"
proof -
  let ?c = "config s"
  let ?pulse = "modulation ?c = Some ''pulse'' \<and> type_c ?c = ''oscillator''"
  define f where "f = next_id e"
  define e1 where "e1 = snd (create_node BiquadFilterNode e)"
  define s1 where "s1 = s\<lparr>filter_n := Some f\<rparr>"
  define e2 where "e2 = filter_design (filter_c ?c) f e1"
  obtain s3 e3 where m: "modulation_logic f s1 e2 = (s3, e3)" by force
  have n2: "next_id e2 = f + 1" by (simp add: e2_def e1_def f_def create_node_def)
  have m3: "frame f e2 e3" "filter_n s3 = filter_n s1" "lfo_step s1 e2 s3 e3"
    using modulation_logic_effect[of f e2 f s1] m n2 by simp_all
  have f3: "filter_n s3 = Some f" using m3(2) by (simp add: s1_def)
  have n3: "f < next_id e3" using m3(1) n2 by (simp add: frame_def)
  have l3: "lfo s3 = lfo s \<or> (\<exists>l. lfo s3 = Some l \<and> f < l)"
    using m3(3) n2 by (auto simp: lfo_step_def s1_def)
  have unfold: "filter_chain s e =
      (if ?pulse then
         (case pulse_chain s3 e3 of
            (Inl x, s, e) \<Rightarrow> (Inl x, s, e)
          | (Inr amGain, s, e) \<Rightarrow> (Inr (Some f), s, connect amGain (Input f) e))
       else
         (case source s3 of
            None \<Rightarrow> (Inl TypeError, s3, e3)
          | Some src \<Rightarrow> (Inr (Some f), s3, connect src (Input f) e3)))"
    using assms(1) m unfolding f_def e1_def s1_def e2_def
    by (simp add: filter_chain_def Let_def create_node_def)
  show ?thesis
  proof (cases ?pulse)
    case True
    obtain r4 s4 e4 where p: "pulse_chain s3 e3 = (r4, s4, e4)"
      by (cases "pulse_chain s3 e3") auto
    have p4: "frame f e3 e4" "filter_n s4 = filter_n s3" "lfo_step s3 e3 s4 e4"
      using pulse_chain_effect[of f e3 s3] p n3 by simp_all
    have n4: "f < next_id e4" using p4(1) n3 by (simp add: frame_def)
    have l4: "lfo s4 = lfo s \<or> (\<exists>l. lfo s4 = Some l \<and> f < l)"
      using p4(3) l3 n3 by (auto simp: lfo_step_def)
    obtain am where r: "out = f" "s' = s4" "e' = connect am (Input f) e4"
      using assms(2) True p unfolding unfold by (cases r4) auto
    show ?thesis
      using r p4(2) f3 n4 l4 by (simp add: f_def)
  next
    case False
    obtain src where r: "out = f" "s' = s3" "e' = connect src (Input f) e3"
      using assms(2) False unfolding unfold by (cases "source s3") auto
    show ?thesis
      using r f3 n3 l3 by (simp add: f_def)
  qed
qed

text \<open>The constructor gives a well-formed node.\<close>

lemma new_SoundNode_ok:
  "sound_node_ok (fst (new_SoundNode c e)) (snd (new_SoundNode c e))"
  by (simp add: new_SoundNode_def create_node_def update_node_def sound_node_ok_def Let_def)

text \<open>\<^verbatim>\<open>start()\<close>, when it completes, keeps the node well-formed and leaves it playing.\<close>

lemma start_keeps_ok:
  assumes ok: "sound_node_ok s e"
    and st: "start s e = (Returned, s1, e2)"
  shows "sound_node_ok s1 e2 \<and> isPlaying s1"
proof (cases "isPlaying s")
  case True
  then show ?thesis using ok st by (simp add: start_noop)
next
  case idle: False
  define g where "g = gainNode s"
  define b where "b = next_id e"
  have ok': "g < b"
    "\<And>n. source s = Some n \<Longrightarrow> n < b \<and> n \<noteq> g"
    "\<And>l. lfo s = Some l \<Longrightarrow> l < b \<and> l \<noteq> g \<and> started (nodes e l)"
    using ok by (auto simp: sound_node_ok_def g_def b_def)
  obtain sA eA out sB eB src where p:
    "source_creation s e = (Returned, sA, eA)"
    "filter_chain sA eA = (Inr (Some out), sB, eB)"
    "source sB = Some src" "\<not> started (nodes eB src)"
    "s1 = sB\<lparr>isPlaying := True\<rparr>"
    "e2 = update_node src (\<lambda>x. x\<lparr>started := True\<rparr>)
            (connect (gainNode sB) (Input (analyser eB)) (connect out (Input (gainNode sB)) eB))"
    using start_returned_cases[OF st idle] by blast
  have a: "gainNode sA = g" "config sA = config s" "lfo_step s e sA eA" "b \<le> next_id eA"
    "\<forall>n<b. nodes eA n = nodes e n"
    "source sA = source s \<or> (source sA = Some b \<and> b < next_id eA)"
    using source_creation_effect[of b e s] p(1) by (auto simp: g_def b_def)
  have bb: "frame b eA eB" "same_node sA sB"
    using filter_chain_effect[of b eA sA] p(2) a(4) by simp_all
  have bl: "frame (next_id eA) eA eB" "lfo_step sA eA sB eB"
    using filter_chain_effect[of "next_id eA" eA sA] p(2) by simp_all
  have nB: "next_id eA \<le> next_id eB" using bb(1) by (simp add: frame_def)
  have old: "nodes eB n = nodes e n" if "n < b" for n
    using that a(5) bb(1) by (simp add: frame_def)
  have gB: "gainNode sB = g" and cB: "config sB = config s" and srcA: "source sA = Some src"
    using a(1,2) bb(2) p(3) by (simp_all add: same_node_def)
  have src: "src < next_id eA" "src \<noteq> g"
    using a(6) srcA ok'(1) ok'(2)[of src] a(4) by auto
  have ls: "lfo_step s e sB eB"
    using a(3) bl(2) bl(1) a(4)[unfolded b_def] by (rule lfo_step_trans)
  have lB: "l < next_id eB \<and> l \<noteq> g \<and> started (nodes eB l)" if "lfo sB = Some l" for l
    using ls
    unfolding lfo_step_def
  proof (elim disjE exE conjE)
    assume "lfo sB = lfo s"
    then have l: "lfo s = Some l" using that by simp
    then have "l < b" "l \<noteq> g" "started (nodes e l)" using ok'(3)[of l] by simp_all
    then show ?thesis using old[of l] a(4) nB by simp
  next
    fix l' assume "lfo sB = Some l'" "next_id e \<le> l'" "l' < next_id eB" "started (nodes eB l')"
    then show ?thesis using that ok'(1) by (auto simp: b_def)
  qed
  have e2n: "next_id e2 = next_id eB" "analyser e2 = analyser eB"
    "set (conns e2) = insert (g, Input (analyser eB)) (insert (out, Input g) (set (conns eB)))"
    "started (nodes e2 src)"
    "\<And>n. started (nodes eB n) \<Longrightarrow> started (nodes e2 n)"
    by (simp_all add: p(6) gB update_node_def)
  have s1: "gainNode s1 = g" "source s1 = Some src" "lfo s1 = lfo sB" "isPlaying s1"
    "config s1 = config s" "filter_n s1 = filter_n sB"
    by (simp_all add: p(5) gB p(3) cB)
  have flt: "(case filter_n s1 of
               None \<Rightarrow> False
             | Some f \<Rightarrow> (f, Input g) \<in> set (conns e2) \<and> Some f \<noteq> source s1 \<and> Some f \<noteq> lfo s1)"
    if t: "truthy (filter_c (config s))"
  proof -
    have t': "truthy (filter_c (config sA))" using t a(2) by simp
    note fc = filter_chain_filter[OF t' p(2)]
    have o: "out = next_id eA" and f: "filter_n sB = Some (next_id eA)"
      and l: "lfo sB = lfo sA \<or> (\<exists>l. lfo sB = Some l \<and> next_id eA < l)"
      using fc by simp_all
    have "lfo sB \<noteq> Some (next_id eA)"
    proof
      assume c: "lfo sB = Some (next_id eA)"
      then have "lfo sA = Some (next_id eA)" using l by auto
      then show False
        using a(3) ok'(3)[of "next_id eA"] a(4) by (auto simp: lfo_step_def)
    qed
    then show ?thesis
      using src(1) by (auto simp: s1 f e2n(3) o)
  qed
  have "sound_node_ok s1 e2"
    unfolding sound_node_ok_def
    using ok'(1) a(4) nB src lB e2n flt
    by (auto simp: s1 split: option.splits)
  then show ?thesis using s1(4) by simp
qed

text \<open>Every method keeps a node well-formed, in every state and with every outcome.\<close>

lemma source_creation_ok:
  assumes ok: "sound_node_ok s e" and idle: "\<not> isPlaying s"
    and sc: "source_creation s e = (r, s', e')"
  shows "sound_node_ok s' e' \<and> \<not> isPlaying s'"
proof -
  define b where "b = next_id e"
  have a: "gainNode s' = gainNode s" "isPlaying s' = isPlaying s" "lfo_step s e s' e'"
    "b \<le> next_id e'" "\<forall>n<b. nodes e' n = nodes e n"
    "source s' = source s \<or> (source s' = Some b \<and> b < next_id e')"
    using source_creation_effect[of b e s] sc by (auto simp: b_def)
  have ok': "gainNode s < b"
    "\<And>n. source s = Some n \<Longrightarrow> n < b \<and> n \<noteq> gainNode s"
    "\<And>l. lfo s = Some l \<Longrightarrow> l < b \<and> l \<noteq> gainNode s \<and> started (nodes e l)"
    using ok by (auto simp: sound_node_ok_def b_def)
  have src: "n < next_id e' \<and> n \<noteq> gainNode s" if "source s' = Some n" for n
    using a(6) that ok'(1) ok'(2)[of n] a(4) by auto
  have l: "l < next_id e' \<and> l \<noteq> gainNode s \<and> started (nodes e' l)" if "lfo s' = Some l" for l
    using a(3) unfolding lfo_step_def
  proof (elim disjE exE conjE)
    assume "lfo s' = lfo s"
    then have "lfo s = Some l" using that by simp
    then show ?thesis using ok'(3)[of l] a(4,5) by auto
  next
    fix l' assume "lfo s' = Some l'" "next_id e \<le> l'" "l' < next_id e'" "started (nodes e' l')"
    then show ?thesis using that ok'(1) by (auto simp: b_def)
  qed
  show ?thesis
    using ok'(1) a(1,2,4) idle src l by (auto simp: sound_node_ok_def split: option.splits)
qed

lemma filter_chain_ok:
  assumes ok: "sound_node_ok s e" and idle: "\<not> isPlaying s"
    and fc: "filter_chain s e = (r, s', e')"
  shows "sound_node_ok s' e' \<and> \<not> isPlaying s'"
proof -
  define b where "b = next_id e"
  have a: "frame b e e'" "same_node s s'" "lfo_step s e s' e'"
    using filter_chain_effect[of b e s] fc by (simp_all add: b_def)
  have n: "b \<le> next_id e'" "\<And>n. n < b \<Longrightarrow> nodes e' n = nodes e n"
    using a(1) by (simp_all add: frame_def b_def)
  have ok': "gainNode s < b"
    "\<And>n. source s = Some n \<Longrightarrow> n < b \<and> n \<noteq> gainNode s"
    "\<And>l. lfo s = Some l \<Longrightarrow> l < b \<and> l \<noteq> gainNode s \<and> started (nodes e l)"
    using ok by (auto simp: sound_node_ok_def b_def)
  have l: "l < next_id e' \<and> l \<noteq> gainNode s \<and> started (nodes e' l)" if "lfo s' = Some l" for l
    using a(3) unfolding lfo_step_def
  proof (elim disjE exE conjE)
    assume "lfo s' = lfo s"
    then have "lfo s = Some l" using that by simp
    then show ?thesis using ok'(3)[of l] n by auto
  next
    fix l' assume "lfo s' = Some l'" "next_id e \<le> l'" "l' < next_id e'" "started (nodes e' l')"
    then show ?thesis using that ok'(1) by (auto simp: b_def)
  qed
  have src: "n < next_id e' \<and> n \<noteq> gainNode s" if "source s' = Some n" for n
    using a(2) that ok'(2)[of n] n(1) by (auto simp: same_node_def)
  show ?thesis
    using ok'(1) a(2) n(1) idle src l
    by (auto simp: sound_node_ok_def same_node_def split: option.splits)
qed

lemma idle_ok_cong:
  assumes "sound_node_ok s e" and "\<not> isPlaying s"
    and "next_id e' = next_id e" and "\<And>n. started (nodes e n) \<Longrightarrow> started (nodes e' n)"
  shows "sound_node_ok s e'"
  using assms by (auto simp: sound_node_ok_def split: option.splits)

lemma start_ok:
  assumes ok: "sound_node_ok s e" and st: "start s e = (r, s1, e2)"
  shows "sound_node_ok s1 e2"
proof (cases r)
  case Returned
  then show ?thesis using start_keeps_ok[OF ok] st by simp
next
  case (Threw x)
  have idle: "\<not> isPlaying s"
    using st Threw by (auto simp: start_def)
  obtain rA sA eA where sc: "source_creation s e = (rA, sA, eA)"
    by (cases "source_creation s e") auto
  note okA = source_creation_ok[OF ok idle sc]
  show ?thesis
  proof (cases rA)
    case t: (Threw y)
    then show ?thesis using st idle sc okA by (simp add: start_def)
  next
    case rA: Returned
    obtain rB sB eB where fc: "filter_chain sA eA = (rB, sB, eB)"
      by (cases "filter_chain sA eA") auto
    have okB: "sound_node_ok sB eB" "\<not> isPlaying sB"
      using filter_chain_ok[OF _ _ fc] okA by simp_all
    have okC: "sound_node_ok sB (connect a1 t1 (connect a2 t2 eB))" for a1 t1 a2 t2
      using okB by (rule idle_ok_cong) simp_all
    have okD: "sound_node_ok sB (snd (start_node n (connect a1 t1 (connect a2 t2 eB))))"
      for n a1 t1 a2 t2
      using okB by (rule idle_ok_cong) (simp_all add: start_node_def update_node_def)
    show ?thesis
      using st idle sc rA fc okB okC Threw
      by (auto simp: start_def Let_def start_node_def
          split: sum.splits option.splits if_splits)
  qed
qed

lemma stop_ok: "sound_node_ok s e \<Longrightarrow> sound_node_ok s (snd (stop s e))"
  by (auto simp: sound_node_ok_def stop_def setTargetAtTime_def update_node_def
      split: option.splits)

lemma setVolume_ok: "sound_node_ok s e \<Longrightarrow> sound_node_ok s (setVolume s v e)"
  by (auto simp: sound_node_ok_def setVolume_def setTargetAtTime_def update_node_def
      split: option.splits)

lemma teardown_ok:
  "sound_node_ok s e \<Longrightarrow> sound_node_ok (fst (teardown s e)) (snd (teardown s e))"
  by (auto simp: sound_node_ok_def teardown_def Let_def release_effect release_frame
      split: option.splits)

text \<open>\<^verbatim>\<open>stop()\<close> and the teardown on a playing node.\<close>

lemma stop_teardown_effect:
  assumes ok: "sound_node_ok s1 e2" and pl: "isPlaying s1"
    and "stop s1 e2 = (t, e3)"
    and "teardown s1 e3 = (s2, e4)"
  shows "t = Some 150" "s2 = s1\<lparr>isPlaying := False\<rparr>"
    "case source s2 of
       None \<Rightarrow> False
     | Some src \<Rightarrow> stopped (nodes e4 src) \<and> src \<notin> fst ` set (conns e4)"
    "case lfo s2 of
       None \<Rightarrow> True
     | Some l \<Rightarrow> stopped (nodes e4 l) \<and> l \<notin> fst ` set (conns e4)"
    "conns e4 = filter (\<lambda>c. Some (fst c) \<noteq> source s1 \<and> Some (fst c) \<noteq> lfo s1) (conns e2)"
    "(gainNode s2, Input (analyser e4)) \<in> set (conns e4)"
    "truthy (filter_c (config s2)) \<longrightarrow>
       (case filter_n s2 of None \<Rightarrow> False | Some f \<Rightarrow> (f, Input (gainNode s2)) \<in> set (conns e4))"
    "sound_node_ok s1 e3" "sound_node_ok s2 e4"
proof -
  define g where "g = gainNode s1"
  obtain src where src: "source s1 = Some src" "src < next_id e2" "src \<noteq> g"
    "started (nodes e2 src)"
    using ok pl by (auto simp: sound_node_ok_def g_def split: option.splits)
  have lf: "l < next_id e2 \<and> l \<noteq> g \<and> started (nodes e2 l)" if "lfo s1 = Some l" for l
    using ok that by (auto simp: sound_node_ok_def g_def)
  have gc: "g < next_id e2" "(g, Input (analyser e2)) \<in> set (conns e2)"
    using ok pl by (auto simp: sound_node_ok_def g_def)
  have fl: "case filter_n s1 of
              None \<Rightarrow> False
            | Some f \<Rightarrow> (f, Input g) \<in> set (conns e2) \<and> f \<noteq> src \<and> Some f \<noteq> lfo s1"
    if "truthy (filter_c (config s1))"
    using ok pl that src(1) by (auto simp: sound_node_ok_def g_def split: option.splits)
  show t: "t = Some 150"
    using assms(3) pl by (auto simp: stop_def)
  have e3: "e3 = setTargetAtTime g 0 (currentTime e2) 0.05 e2"
    using assms(3) pl by (auto simp: stop_def g_def)
  have e3': "conns e3 = conns e2" "analyser e3 = analyser e2" "next_id e3 = next_id e2"
    "\<And>n. started (nodes e3 n) = started (nodes e2 n)"
    by (simp_all add: e3 setTargetAtTime_def update_node_def)
  show s2: "s2 = s1\<lparr>isPlaying := False\<rparr>"
    using assms(4) by (auto simp: teardown_def Let_def)
  have e4: "e4 = release (lfo s1) (release (source s1) e3)"
    using assms(4) by (auto simp: teardown_def Let_def)
  show c4: "conns e4
      = filter (\<lambda>c. Some (fst c) \<noteq> source s1 \<and> Some (fst c) \<noteq> lfo s1) (conns e2)"
    by (simp add: e4 release_frame e3' conj_commute)
  have e4': "analyser e4 = analyser e2" "next_id e4 = next_id e2"
    "\<And>n. started (nodes e4 n) = started (nodes e2 n)"
    by (simp_all add: e4 release_effect release_frame e3')
  have lg: "Some g \<noteq> lfo s1" using lf[of g] by auto
  show gain: "(gainNode s2, Input (analyser e4)) \<in> set (conns e4)"
    using gc(2) src(1,3) lg by (auto simp: c4 e4' s2 g_def)
  have "started (nodes e3 src)" using src(4) e3' by simp
  then have "stopped (nodes (release (Some src) e3) src)"
    by (rule release_effect(5))
  then have ssrc: "stopped (nodes e4 src)"
    unfolding e4 src(1) by (rule release_effect(3))
  have slfo: "stopped (nodes e4 l)" if "lfo s1 = Some l" for l
  proof -
    have "started (nodes (release (Some src) e3) l)"
      using lf[OF that] e3' by (simp add: release_effect)
    then show ?thesis
      unfolding e4 src(1) that by (rule release_effect(5))
  qed
  show "case source s2 of
          None \<Rightarrow> False
        | Some src \<Rightarrow> stopped (nodes e4 src) \<and> src \<notin> fst ` set (conns e4)"
    using ssrc by (auto simp: s2 src(1) c4)
  show "case lfo s2 of
          None \<Rightarrow> True
        | Some l \<Rightarrow> stopped (nodes e4 l) \<and> l \<notin> fst ` set (conns e4)"
    using slfo by (auto simp: s2 c4 split: option.splits)
  show "truthy (filter_c (config s2)) \<longrightarrow>
       (case filter_n s2 of None \<Rightarrow> False | Some f \<Rightarrow> (f, Input (gainNode s2)) \<in> set (conns e4))"
    using fl by (auto simp: s2 c4 src(1) g_def split: option.splits)
  show "sound_node_ok s1 e3"
    using ok by (auto simp: sound_node_ok_def e3' split: option.splits)
  show "sound_node_ok s2 e4"
    using src lf gc(1) by (auto simp: sound_node_ok_def s2 e4' g_def split: option.splits)
qed

text \<open>
  Claim C3, as the code has it. For every well-formed \<^verbatim>\<open>SoundNode\<close>, once
  \<^verbatim>\<open>start()\<close> has completed, \<^verbatim>\<open>stop()\<close> schedules the teardown 150 ms later, and
  after the teardown the node is idle (\<^verbatim>\<open>isPlaying\<close> is false), its source is stopped
  and has no outgoing connection, and so has its LFO if it has one. The teardown
  disconnects nothing else: the connections after it are those there were after
  \<^verbatim>\<open>start()\<close>, without the ones that leave the source or the LFO. So the node's output
  gain is still connected to the analyser (the mix bus), and the filter of a sound that has
  one to the gain. Every node is well-formed: the constructor gives such a node, and
  \<^verbatim>\<open>start()\<close> (with any outcome), \<^verbatim>\<open>stop()\<close>, the teardown and
  \<^verbatim>\<open>setVolume()\<close> keep it so, in every state.
\<close>

theorem stop_then_teardown:
  assumes "sound_node_ok s e"
    and "start s e = (Returned, s1, e2)"
    and "stop s1 e2 = (t, e3)"
    and "teardown s1 e3 = (s2, e4)"
  shows "t = Some 150 \<and> \<not> isPlaying s2
    \<and> (case source s2 of
          None \<Rightarrow> False
        | Some src \<Rightarrow> stopped (nodes e4 src) \<and> src \<notin> fst ` set (conns e4))
    \<and> (case lfo s2 of
          None \<Rightarrow> True
        | Some l \<Rightarrow> stopped (nodes e4 l) \<and> l \<notin> fst ` set (conns e4))
    \<and> conns e4 = filter (\<lambda>c. Some (fst c) \<noteq> source s1 \<and> Some (fst c) \<noteq> lfo s1) (conns e2)
    \<and> (gainNode s2, Input (analyser e4)) \<in> set (conns e4)
    \<and> (truthy (filter_c (config s2)) \<longrightarrow>
         (case filter_n s2 of
            None \<Rightarrow> False
          | Some f \<Rightarrow> (f, Input (gainNode s2)) \<in> set (conns e4)))
    \<and> sound_node_ok s2 e4
    \<and> sound_node_ok (fst (new_SoundNode c e0)) (snd (new_SoundNode c e0))
    \<and> (\<forall>n m v. sound_node_ok n m \<longrightarrow>
          sound_node_ok (fst (snd (start n m))) (snd (snd (start n m)))
          \<and> sound_node_ok n (snd (stop n m))
          \<and> sound_node_ok (fst (teardown n m)) (snd (teardown n m))
          \<and> sound_node_ok n (setVolume n v m))"
proof -
  have k: "sound_node_ok s1 e2" "isPlaying s1"
    using start_keeps_ok[OF assms(1,2)] by simp_all
  note r = stop_teardown_effect[OF k assms(3,4)]
  have i: "\<not> isPlaying s2" using r(2) by simp
  have m: "sound_node_ok (fst (snd (start n m))) (snd (snd (start n m)))
      \<and> sound_node_ok n (snd (stop n m))
      \<and> sound_node_ok (fst (teardown n m)) (snd (teardown n m))
      \<and> sound_node_ok n (setVolume n v m)"
    if "sound_node_ok n m" for n m v
    using that start_ok[OF that, of "fst (start n m)" "fst (snd (start n m))" "snd (snd (start n m))"]
      stop_ok teardown_ok setVolume_ok
    by simp
  show ?thesis
    using r(1) i r(3-7) r(9) new_SoundNode_ok m by blast
qed

lemma torn_down_node_eq:
  "stop (fst (snd (started_node i))) (snd (snd (started_node i))) = (t, e3) \<Longrightarrow>
   torn_down_node i = teardown (fst (snd (started_node i))) e3"
  by (simp add: torn_down_node_def case_prod_beta)

lemma restarted_node_start:
  "restarted_node i = start (fst (torn_down_node i)) (snd (torn_down_node i))"
  by (simp add: restarted_node_def case_prod_beta)

lemma torn_down_again_eq:
  "stop (fst (snd (restarted_node i))) (snd (snd (restarted_node i))) = (t, e3) \<Longrightarrow>
   torn_down_again i = teardown (fst (snd (restarted_node i))) e3"
  by (simp add: torn_down_again_def case_prod_beta)

lemma ocean_restarted: "fst (restarted_node ''ocean'') = Returned"
  by (simp add: example_defs start_defs engine_defs stop_defs conns_connect truthy_def Let_def
      cong: eval_congs)

lemma ocean_connections:
  "conns (snd (snd (started_node ''ocean'')))
     = [(1, Input 0), (5, Input 6), (6, Param 4 FrequencyParam), (3, Input 4), (4, Input 2),
        (2, Input 1)]"
  "source (fst (snd (started_node ''ocean''))) = Some 3"
  "lfo (fst (snd (started_node ''ocean''))) = Some 5"
  "conns (snd (torn_down_node ''ocean''))
     = [(1, Input 0), (6, Param 4 FrequencyParam), (4, Input 2), (2, Input 1)]"
  "conns (snd (torn_down_again ''ocean''))
     = [(1, Input 0), (6, Param 4 FrequencyParam), (4, Input 2), (2, Input 1),
        (10, Param 8 FrequencyParam), (8, Input 2)]"
  by (simp_all add: example_defs start_defs engine_defs stop_defs conns_connect truthy_def Let_def
      cong: eval_congs)

theorem stop_then_teardown_witness:
  "sound_node_ok (fst (fresh_node ''ocean'')) (snd (fresh_node ''ocean''))
   \<and> fst (started_node ''ocean'') = Returned
   \<and> fst (stop (fst (snd (started_node ''ocean''))) (snd (snd (started_node ''ocean'')))) = Some 150
   \<and> \<not> isPlaying (fst (torn_down_node ''ocean''))
   \<and> (case source (fst (torn_down_node ''ocean'')) of
         None \<Rightarrow> False
       | Some src \<Rightarrow> stopped (nodes (snd (torn_down_node ''ocean'')) src)
           \<and> src \<notin> fst ` set (conns (snd (torn_down_node ''ocean''))))
   \<and> (case lfo (fst (torn_down_node ''ocean'')) of
         None \<Rightarrow> False
       | Some l \<Rightarrow> stopped (nodes (snd (torn_down_node ''ocean'')) l)
           \<and> l \<notin> fst ` set (conns (snd (torn_down_node ''ocean''))))
   \<and> conns (snd (snd (started_node ''ocean'')))
       = [(1, Input 0), (5, Input 6), (6, Param 4 FrequencyParam), (3, Input 4), (4, Input 2),
          (2, Input 1)]
   \<and> source (fst (snd (started_node ''ocean''))) = Some 3
   \<and> lfo (fst (snd (started_node ''ocean''))) = Some 5
   \<and> conns (snd (torn_down_node ''ocean''))
       = [(1, Input 0), (6, Param 4 FrequencyParam), (4, Input 2), (2, Input 1)]
   \<and> (gainNode (fst (torn_down_node ''ocean'')),
        Input (analyser (snd (torn_down_node ''ocean''))))
       \<in> set (conns (snd (torn_down_node ''ocean'')))
   \<and> truthy (filter_c (config (fst (torn_down_node ''ocean''))))
   \<and> (case filter_n (fst (torn_down_node ''ocean'')) of
         None \<Rightarrow> False
       | Some f \<Rightarrow> (f, Input (gainNode (fst (torn_down_node ''ocean''))))
           \<in> set (conns (snd (torn_down_node ''ocean''))))
   \<and> sound_node_ok (fst (torn_down_node ''ocean'')) (snd (torn_down_node ''ocean''))
   \<and> fst (restarted_node ''ocean'') = Returned
   \<and> fst (stop (fst (snd (restarted_node ''ocean''))) (snd (snd (restarted_node ''ocean''))))
       = Some 150
   \<and> \<not> isPlaying (fst (torn_down_again ''ocean''))
   \<and> conns (snd (torn_down_again ''ocean''))
       = [(1, Input 0), (6, Param 4 FrequencyParam), (4, Input 2), (2, Input 1),
          (10, Param 8 FrequencyParam), (8, Input 2)]
   \<and> sound_node_ok (fst (torn_down_again ''ocean'')) (snd (torn_down_again ''ocean''))"
proof -
  let ?s0 = "fst (fresh_node ''ocean'')" and ?e0 = "snd (fresh_node ''ocean'')"
  let ?s1 = "fst (snd (started_node ''ocean''))" and ?e2 = "snd (snd (started_node ''ocean''))"
  let ?s2 = "fst (torn_down_node ''ocean'')" and ?e4 = "snd (torn_down_node ''ocean'')"
  let ?s3 = "fst (snd (restarted_node ''ocean''))" and ?e5 = "snd (snd (restarted_node ''ocean''))"
  let ?s4 = "fst (torn_down_again ''ocean'')" and ?e7 = "snd (torn_down_again ''ocean'')"
  have a1: "sound_node_ok ?s0 ?e0"
    unfolding fresh_node_def by (rule new_SoundNode_ok)
  have a2: "start ?s0 ?e0 = (Returned, ?s1, ?e2)"
    using ocean_started by (simp add: started_node_start prod_eq_iff)
  have a3: "stop ?s1 ?e2 = (fst (stop ?s1 ?e2), snd (stop ?s1 ?e2))"
    by simp
  have a4: "teardown ?s1 (snd (stop ?s1 ?e2)) = (?s2, ?e4)"
    using torn_down_node_eq[OF a3] by simp
  note first = stop_then_teardown[OF a1 a2 a3 a4, of "sound ''ocean''" studio]
  have b1: "sound_node_ok ?s2 ?e4"
    using first by blast
  have b2: "start ?s2 ?e4 = (Returned, ?s3, ?e5)"
    using ocean_restarted by (simp add: restarted_node_start prod_eq_iff)
  have b3: "stop ?s3 ?e5 = (fst (stop ?s3 ?e5), snd (stop ?s3 ?e5))"
    by simp
  have b4: "teardown ?s3 (snd (stop ?s3 ?e5)) = (?s4, ?e7)"
    using torn_down_again_eq[OF b3] by simp
  note again = stop_then_teardown[OF b1 b2 b3 b4, of "sound ''ocean''" studio]
  have c: "config ?s2 = sound ''ocean''" "lfo ?s2 = Some 5"
    by (simp_all add: example_defs start_defs engine_defs stop_defs conns_connect truthy_def
        Let_def cong: eval_congs)
  have t: "truthy (filter_c (config ?s2))"
    unfolding c by (simp add: sound_table plain_def truthy_def)
  have "case lfo ?s2 of
          None \<Rightarrow> True
        | Some l \<Rightarrow> stopped (nodes ?e4 l) \<and> l \<notin> fst ` set (conns ?e4)"
    using first by blast
  then have l: "case lfo ?s2 of
             None \<Rightarrow> False
           | Some l \<Rightarrow> stopped (nodes ?e4 l) \<and> l \<notin> fst ` set (conns ?e4)"
    by (simp add: c(2))
  have f: "case filter_n ?s2 of
             None \<Rightarrow> False
           | Some f \<Rightarrow> (f, Input (gainNode ?s2)) \<in> set (conns ?e4)"
    using first t by blast
  show ?thesis
    using first again a1 b1 ocean_started ocean_restarted ocean_connections t l f
    by blast
qed

text \<open>
  The claim as the specification states it fails: after \<^verbatim>\<open>start()\<close>, \<^verbatim>\<open>stop()\<close> and
  the teardown of the sound \<^verbatim>\<open>rain\<close>, the node's output gain (node 2) is still
  connected to the analyser (node 1), and the filter (node 4) to the gain.
\<close>

theorem stages_left_attached_counterexample:
  "gainNode (fst (torn_down_node ''rain'')) = 2
   \<and> analyser (snd (torn_down_node ''rain'')) = 1
   \<and> conns (snd (torn_down_node ''rain'')) = [(1, Input 0), (4, Input 2), (2, Input 1)]"
  by (simp add: example_defs start_defs engine_defs stop_defs conns_connect truthy_def Let_def
      cong: eval_congs)

text \<open>
  Claim C2 fails on the code for the sound \<^verbatim>\<open>crickets\<close> (an oscillator with modulation
  \<^verbatim>\<open>'pulse'\<close>): \<^verbatim>\<open>start()\<close> creates and starts two square LFOs, node 4 in the
  oscillator branch and node 8 when the chain is built again, and keeps only the second in
  \<^verbatim>\<open>this.lfo\<close>. After \<^verbatim>\<open>stop()\<close> and the teardown the first is still running.
\<close>

theorem crickets_two_lfos:
  "fst (started_node ''crickets'') = Returned
   \<and> lfo (fst (snd (started_node ''crickets''))) = Some 8
   \<and> running_oscillators ''square'' (snd (snd (started_node ''crickets''))) = [4, 8]
   \<and> running_oscillators ''square'' (snd (torn_down_node ''crickets'')) = [4]"
  by (simp add: example_defs start_defs engine_defs stop_defs conns_connect truthy_def
      or_string_def or_number_def Let_def running_oscillators_def running_def upt_rec
      cong: eval_congs)

subsection \<open>The page\<close>

text \<open>
  Claim C1 fails on the code. Three clicks on the card of \<^verbatim>\<open>rain\<close>, 20 ms apart: the
  third \<^verbatim>\<open>start()\<close> returns at once because \<^verbatim>\<open>isPlaying\<close> is still set, and the
  teardown of the \<^verbatim>\<open>stop()\<close> before it, which checks nothing, then stops the source. The
  card is active, one source is live just after the third click, and none once the teardown
  has run.
\<close>

theorem rapid_toggle_silence:
  "card_active (triple_click ''rain'' 0) ''rain''
   \<and> live_in (triple_click ''rain'' 0) = [3]
   \<and> card_active (triple_click ''rain'' 150) ''rain''
   \<and> map_option isPlaying (node_of ''rain'' (triple_click ''rain'' 150)) = Some False
   \<and> live_in (triple_click ''rain'' 150) = []"
  by (simp add: page_defs example_defs start_defs engine_defs stop_defs conns_connect truthy_def
      Let_def live_sources_def running_def upt_rec
      cong: eval_congs)

lemma initAudio_idem: "initAudio (initAudio w) = initAudio w"
  by (simp add: initAudio_def Let_def)

text \<open>
  Claim C6, as the code has it. No call has to come before a click: the click handler runs
  \<^verbatim>\<open>initAudio\<close> itself, which creates the audio context and the analyser when there is
  none and calls \<^verbatim>\<open>resume()\<close> on a suspended context. So a click on a page that was
  never initialised is a click on the initialised page, the context exists when the node is
  toggled, and it is running or has been asked to resume. \<^verbatim>\<open>initAudio\<close> itself does
  not change the state of the context: a context there was keeps its state, and a new one
  has the state it was created in. Nothing reports that the engine is not ready.
\<close>

theorem click_initialises:
  "click snd_cfg w = click snd_cfg (initAudio w)
   \<and> audio (initAudio w) \<noteq> None
   \<and> (case audio (initAudio w) of
         None \<Rightarrow> False
       | Some e \<Rightarrow> state e = Running \<or> resume_pending e)
   \<and> map_option state (audio (initAudio w))
       = Some (case audio w of None \<Rightarrow> initial_state (platform w) | Some e \<Rightarrow> state e)"
proof -
  have st: "map_option state (audio (initAudio w))
      = Some (case audio w of None \<Rightarrow> initial_state (platform w) | Some e \<Rightarrow> state e)"
    by (cases "audio w")
      (simp_all add: initAudio_def Let_def new_AudioContext_def create_node_def update_node_def)
  have "click snd_cfg w = click snd_cfg (initAudio w)"
    by (simp add: click_def initAudio_idem)
  moreover have "\<exists>e. initAudio w =
      w\<lparr>audio := Some (if state e = Suspended then e\<lparr>resume_pending := True\<rparr> else e)\<rparr>"
    unfolding initAudio_def Let_def by (rule exI) (rule refl)
  then obtain e where
    "audio (initAudio w) = Some (if state e = Suspended then e\<lparr>resume_pending := True\<rparr> else e)"
    by auto
  then have "audio (initAudio w) \<noteq> None
      \<and> (case audio (initAudio w) of
            None \<Rightarrow> False
          | Some e \<Rightarrow> state e = Running \<or> resume_pending e)"
    by (cases "state e") auto
  ultimately show ?thesis using st by blast
qed

text \<open>
  The first click on a page just loaded does not fail: it creates the context, which is
  suspended, asks it to resume and starts the sound.
\<close>

theorem first_click_counterexample:
  "audio (page_loaded laptop) = None
   \<and> fst (click (sound ''rain'') (page_loaded laptop)) = Returned
   \<and> map_option state (audio (snd (click (sound ''rain'') (page_loaded laptop))))
       = Some Suspended
   \<and> map_option resume_pending (audio (snd (click (sound ''rain'') (page_loaded laptop))))
       = Some True
   \<and> map_option isPlaying (node_of ''rain'' (snd (click (sound ''rain'') (page_loaded laptop))))
       = Some True
   \<and> live_in (snd (click (sound ''rain'') (page_loaded laptop))) = [3]"
  by (simp add: page_defs example_defs start_defs engine_defs stop_defs conns_connect truthy_def
      Let_def live_sources_def running_def upt_rec
      cong: eval_congs)

end
